theory Spec2Isabelle
  imports Main
begin

section \<open>Data model\<close>

text \<open>
  The server keeps its tables as JSON arrays (\<^verbatim>\<open>keys.json\<close>, \<^verbatim>\<open>devices.json\<close>,
  \<^verbatim>\<open>resellers.json\<close>), so every table is a list of records; the fields are those the
  route handlers read and write. Timestamps are milliseconds since the epoch, as
  \<^verbatim>\<open>Date\<close> compares them; identifiers, credits, device limits and counts are integers.
\<close>

record key =
  k_id :: int
  k_keyString :: string
  k_game :: string
  k_resellerId :: int
  k_deviceLimit :: int
  k_createdAt :: int
  k_expiryDate :: int
  k_isRevoked :: bool

record device =
  d_keyId :: int
  d_deviceId :: string

record reseller =
  r_id :: int
  r_username :: string
  r_credits :: int
  r_isActive :: bool

record store =
  st_keys :: "key list"
  st_devices :: "device list"
  st_resellers :: "reseller list"

section \<open>Storage\<close>

text \<open>
  Every \<^verbatim>\<open>await storage.f(...)\<close> of a handler sits inside the handler's
  \<^verbatim>\<open>try\<close> block and may reject. A fault plan says, for each storage call a handler
  makes while it serves one request (for \<^verbatim>\<open>createKey\<close>: for each iteration of the
  issuance loop), whether the call rejects and with which error message; \<open>no_faults\<close>
  is the plan of a request during which the store answers every call.
\<close>

datatype call =
  GetKey | GetDevicesByKeyId | AddDevice | RevokeKey
  | GetReseller | CreateKey int | UpdateResellerCredits

type_synonym faults = "call \<Rightarrow> string option"

definition no_faults :: faults where
  "no_faults = (\<lambda>c. None)"

text \<open>
  Modelled from the spec: \<^verbatim>\<open>storage.getKey\<close> (module \<^verbatim>\<open>./storage\<close>), the
  boundary operation \<^verbatim>\<open>findKeyByString(s) -> Key | none\<close>.
\<close>

definition getKey :: "string \<Rightarrow> store \<Rightarrow> key option" where
  "getKey s st = find (\<lambda>k. k_keyString k = s) (st_keys st)"

text \<open>
  Modelled from the spec: \<^verbatim>\<open>storage.getDevicesByKeyId\<close> (module \<^verbatim>\<open>./storage\<close>),
  \<^verbatim>\<open>listByKey(keyId) -> ordered-by-registration sequence of Device\<close>.
\<close>

definition getDevicesByKeyId :: "int \<Rightarrow> store \<Rightarrow> device list" where
  "getDevicesByKeyId kid st = filter (\<lambda>d. d_keyId d = kid) (st_devices st)"

text \<open>
  Modelled from the spec: \<^verbatim>\<open>storage.addDevice\<close> (module \<^verbatim>\<open>./storage\<close>),
  \<^verbatim>\<open>add(keyId, deviceId) -> Device\<close>, which fails with \<^verbatim>\<open>DuplicateDevice\<close> if the
  pair already exists. The new device is the last of the registration order.
\<close>

definition addDevice :: "int \<Rightarrow> string \<Rightarrow> store \<Rightarrow> string + device \<times> store" where
  "addDevice kid did st =
     (let dev = \<lparr>d_keyId = kid, d_deviceId = did\<rparr>
      in if dev \<in> set (st_devices st) then Inl ''DuplicateDevice''
         else Inr (dev, st\<lparr>st_devices := st_devices st @ [dev]\<rparr>))"

section \<open>Verification\<close>

record verify_request =
  rq_key :: string
  rq_deviceId :: string
  rq_game :: string

text \<open>The JSON body of a verification answer; an absent field is \<open>None\<close>.\<close>

record verdict =
  valid :: bool
  message :: string
  expiry :: "int option"
  deviceLimit :: "int option"
  currentDevices :: "int option"
  canRegister :: "bool option"

record 'b response =
  status :: nat
  body :: 'b

definition json :: "'b \<Rightarrow> 'b response" where
  "json b = \<lparr>status = 200, body = b\<rparr>"

definition invalid :: "string \<Rightarrow> verdict" where
  "invalid msg = \<lparr>valid = False, message = msg, expiry = None, deviceLimit = None,
     currentDevices = None, canRegister = None\<rparr>"

text \<open>
  \<^verbatim>\<open>POST /api/verify\<close>. The first argument is the fault plan, the second the clock
  (\<^verbatim>\<open>new Date()\<close>), the third the outcome of \<^verbatim>\<open>keyVerificationSchema.parse(req.body)\<close>:
  the schema is declared in \<^verbatim>\<open>@shared/schema\<close>, so its result is taken as given,
  \<open>Inl msg\<close> for a thrown validation error. Every exception ends in the handler's
  \<^verbatim>\<open>catch\<close>, which answers 400 with the error's message.
\<close>

definition verify_post ::
  "faults \<Rightarrow> int \<Rightarrow> string + verify_request \<Rightarrow> store \<Rightarrow> verdict response \<times> store" where
  "verify_post flt now parsed st =
     (case parsed of
        Inl err \<Rightarrow> (\<lparr>status = 400, body = invalid err\<rparr>, st)
      | Inr rq \<Rightarrow>
        (case flt GetKey of
           Some err \<Rightarrow> (\<lparr>status = 400, body = invalid err\<rparr>, st)
         | None \<Rightarrow>
           (case getKey (rq_key rq) st of
              None \<Rightarrow> (json (invalid ''Invalid license key''), st)
            | Some key \<Rightarrow>
                if k_game key \<noteq> rq_game rq then
                  (json (invalid ''License key is not valid for this game''), st)
                else if k_isRevoked key then
                  (json (invalid ''License key has been revoked''), st)
                else if k_expiryDate key \<le> now then
                  (json ((invalid ''License key has expired'')
                     \<lparr>expiry := Some (k_expiryDate key)\<rparr>), st)
                else
                  (case flt GetDevicesByKeyId of
                     Some err \<Rightarrow> (\<lparr>status = 400, body = invalid err\<rparr>, st)
                   | None \<Rightarrow>
                     (let devices = getDevicesByKeyId (k_id key) st;
                          deviceExists = list_ex (\<lambda>d. d_deviceId d = rq_deviceId rq) devices
                      in if deviceExists then
                           (json \<lparr>valid = True, message = ''License valid'',
                              expiry = Some (k_expiryDate key),
                              deviceLimit = Some (k_deviceLimit key),
                              currentDevices = Some (int (length devices)),
                              canRegister = None\<rparr>, st)
                         else if int (length devices) \<ge> k_deviceLimit key then
                           (json \<lparr>valid = False,
                              message = ''Device limit reached for this license key'',
                              expiry = Some (k_expiryDate key),
                              deviceLimit = Some (k_deviceLimit key),
                              currentDevices = Some (int (length devices)),
                              canRegister = None\<rparr>, st)
                         else
                           (case flt AddDevice of
                              Some err \<Rightarrow> (\<lparr>status = 400, body = invalid err\<rparr>, st)
                            | None \<Rightarrow>
                              (case addDevice (k_id key) (rq_deviceId rq) st of
                                 Inl err \<Rightarrow> (\<lparr>status = 400, body = invalid err\<rparr>, st)
                               | Inr (dev, st') \<Rightarrow>
                                   (json \<lparr>valid = True, message = ''License valid'',
                                      expiry = Some (k_expiryDate key),
                                      deviceLimit = Some (k_deviceLimit key),
                                      currentDevices = Some (int (length devices) + 1),
                                      canRegister = None\<rparr>, st'))))))))"

text \<open>
  \<^verbatim>\<open>GET /api/verify/:key/:game/:deviceId\<close>, the check that registers nothing. It
  validates its three path parameters itself and answers every exception with the fixed
  message of its \<^verbatim>\<open>catch\<close>.
\<close>

definition verify_get ::
  "faults \<Rightarrow> int \<Rightarrow> string \<Rightarrow> string \<Rightarrow> string \<Rightarrow> store \<Rightarrow> verdict response \<times> store" where
  "verify_get flt now keyString game deviceId st =
     (if keyString = [] \<or> game = [] \<or> deviceId = [] then
        (\<lparr>status = 400, body = invalid
            ''Missing required parameters. Need key, game, and deviceId.''\<rparr>, st)
      else if game \<notin> set [''PUBG MOBILE'', ''LAST ISLAND OF SURVIVAL'', ''STANDOFF2''] then
        (\<lparr>status = 400, body = invalid
            ''Invalid game. Must be one of: PUBG MOBILE, LAST ISLAND OF SURVIVAL, STANDOFF2''\<rparr>, st)
      else
        (case flt GetKey of
           Some err \<Rightarrow> (\<lparr>status = 400, body = invalid ''Error verifying license key''\<rparr>, st)
         | None \<Rightarrow>
           (case getKey keyString st of
              None \<Rightarrow> (json (invalid ''Invalid license key''), st)
            | Some key \<Rightarrow>
                if k_game key \<noteq> game then
                  (json (invalid ''License key is not valid for this game''), st)
                else if k_isRevoked key then
                  (json (invalid ''License key has been revoked''), st)
                else if k_expiryDate key \<le> now then
                  (json ((invalid ''License key has expired'')
                     \<lparr>expiry := Some (k_expiryDate key)\<rparr>), st)
                else
                  (case flt GetDevicesByKeyId of
                     Some err \<Rightarrow>
                       (\<lparr>status = 400, body = invalid ''Error verifying license key''\<rparr>, st)
                   | None \<Rightarrow>
                     (let devices = getDevicesByKeyId (k_id key) st;
                          deviceExists = list_ex (\<lambda>d. d_deviceId d = deviceId) devices
                      in if deviceExists then
                           (json \<lparr>valid = True, message = ''License valid'',
                              expiry = Some (k_expiryDate key),
                              deviceLimit = Some (k_deviceLimit key),
                              currentDevices = Some (int (length devices)),
                              canRegister = None\<rparr>, st)
                         else if int (length devices) \<ge> k_deviceLimit key then
                           (json \<lparr>valid = False,
                              message = ''Device limit reached for this license key'',
                              expiry = Some (k_expiryDate key),
                              deviceLimit = Some (k_deviceLimit key),
                              currentDevices = Some (int (length devices)),
                              canRegister = None\<rparr>, st)
                         else
                           (json \<lparr>valid = True,
                              message = ''License valid, device can be registered'',
                              expiry = Some (k_expiryDate key),
                              deviceLimit = Some (k_deviceLimit key),
                              currentDevices = Some (int (length devices)),
                              canRegister = Some True\<rparr>, st))))))"

section \<open>Revocation by the administrator\<close>

text \<open>
  Modelled from the spec: \<^verbatim>\<open>storage.revokeKey\<close> (module \<^verbatim>\<open>./storage\<close>),
  \<^verbatim>\<open>revoke(keyId) -> Key | NotFound\<close>: sets \<^verbatim>\<open>revoked = true\<close> unconditionally and
  does not remove bound devices.
\<close>

definition revokeKey :: "int \<Rightarrow> store \<Rightarrow> key option \<times> store" where
  "revokeKey kid st =
     (case find (\<lambda>k. k_id k = kid) (st_keys st) of
        None \<Rightarrow> (None, st)
      | Some k \<Rightarrow>
          (Some (k\<lparr>k_isRevoked := True\<rparr>),
           st\<lparr>st_keys := map (\<lambda>x. if k_id x = kid then x\<lparr>k_isRevoked := True\<rparr> else x)
                             (st_keys st)\<rparr>))"

datatype delete_body =
  DeleteOk string key
  | DeleteFailed string

text \<open>
  \<^verbatim>\<open>DELETE /api/admin/keys/:id\<close>, after the \<^verbatim>\<open>isAuthenticated\<close> and \<^verbatim>\<open>isAdmin\<close>
  middleware let the request through. The second argument is the value of
  \<^verbatim>\<open>parseInt(req.params.id)\<close>, \<open>None\<close> for \<^verbatim>\<open>NaN\<close>. \<open>DeleteOk msg k\<close> is the body
  \<^verbatim>\<open>{success: true, message: msg, key: k}\<close>, \<open>DeleteFailed msg\<close> the body
  \<^verbatim>\<open>{message: msg}\<close>.
\<close>

definition admin_delete_key ::
  "faults \<Rightarrow> int option \<Rightarrow> store \<Rightarrow> delete_body response \<times> store" where
  "admin_delete_key flt parsedId st =
     (case parsedId of
        None \<Rightarrow> (\<lparr>status = 400, body = DeleteFailed ''Invalid key ID''\<rparr>, st)
      | Some keyId \<Rightarrow>
        (case flt RevokeKey of
           Some err \<Rightarrow> (\<lparr>status = 500, body = DeleteFailed err\<rparr>, st)
         | None \<Rightarrow>
           (case revokeKey keyId st of
              (None, st') \<Rightarrow> (\<lparr>status = 404, body = DeleteFailed ''Key not found''\<rparr>, st')
            | (Some revokedKey, st') \<Rightarrow>
                (json (DeleteOk ''Key revoked successfully'' revokedKey), st'))))"

section \<open>Key strings\<close>

text \<open>
  \<^verbatim>\<open>String.prototype.toUpperCase\<close> on ASCII text: each of the letters a to z moves
  to its capital and every other character stays. The strings it is applied to here come
  from \<^verbatim>\<open>nanoid\<close> and are ASCII.
\<close>

definition upper_char :: "char \<Rightarrow> char" where
  "upper_char c =
     (case map_of (zip ''abcdefghijklmnopqrstuvwxyz'' ''ABCDEFGHIJKLMNOPQRSTUVWXYZ'') c of
        Some u \<Rightarrow> u
      | None \<Rightarrow> c)"

definition toUpperCase :: "string \<Rightarrow> string" where
  "toUpperCase s = map upper_char s"

text \<open>\<^verbatim>\<open>Array.prototype.join\<close>.\<close>

fun join :: "string \<Rightarrow> string list \<Rightarrow> string" where
  "join sep [] = []"
| "join sep [x] = x"
| "join sep (x # y # ys) = x @ sep @ join sep (y # ys)"

text \<open>
  The default alphabet of the \<^verbatim>\<open>nanoid\<close> package (its \<^verbatim>\<open>urlAlphabet\<close>): the 64
  characters A to Z, a to z, 0 to 9, underscore and hyphen. \<^verbatim>\<open>nanoid(5)\<close> returns
  five characters drawn at random from it.
\<close>

definition urlAlphabet :: string where
  "urlAlphabet = ''useandom-26T198340PX75pxJACKVERYMINDBUSHWOLF_GQZbfghjklqvwyzrict''"

definition is_nanoid5 :: "string \<Rightarrow> bool" where
  "is_nanoid5 s = (length s = 5 \<and> list_all (\<lambda>c. c \<in> set urlAlphabet) s)"

text \<open>
  What \<^verbatim>\<open>toUpperCase\<close> can make of a character of that alphabet: a capital letter, a
  digit, the underscore or the hyphen.
\<close>

definition segment_alphabet :: string where
  "segment_alphabet = ''ABCDEFGHIJKLMNOPQRSTUVWXYZ0123456789_-''"

text \<open>The capital letters and the digits.\<close>

definition upper_alphanumeric :: string where
  "upper_alphanumeric = ''ABCDEFGHIJKLMNOPQRSTUVWXYZ0123456789''"

text \<open>
  \<^verbatim>\<open>generateKeyString\<close>. The three extra arguments are the results of its three
  calls of \<^verbatim>\<open>nanoid(5)\<close>, in the order of the calls.
\<close>

definition generateKeyString :: "string \<Rightarrow> string \<Rightarrow> string \<Rightarrow> string \<Rightarrow> string" where
  "generateKeyString game n1 n2 n3 =
     (let prefix =
            (if game = ''PUBG MOBILE'' then ''PBGM''
             else if game = ''LAST ISLAND OF SURVIVAL'' then ''LIOS''
             else if game = ''STANDOFF2'' then ''STDF''
             else []);
          segments = [toUpperCase n1, toUpperCase n2, toUpperCase n3]
      in prefix @ ''-'' @ join ''-'' segments)"

text \<open>
  The random source of one request: \<open>rnd n\<close> is the result of the \<open>n\<close>-th call of
  \<^verbatim>\<open>nanoid(5)\<close> (counted from 0). \<open>draw rnd game n\<close> is a call of
  \<^verbatim>\<open>generateKeyString(game)\<close> that starts at position \<open>n\<close> of the source and uses
  three results.
\<close>

definition draw :: "(nat \<Rightarrow> string) \<Rightarrow> string \<Rightarrow> nat \<Rightarrow> string" where
  "draw rnd game n = generateKeyString game (rnd n) (rnd (n + 1)) (rnd (n + 2))"

section \<open>Issuance\<close>

text \<open>
  Modelled from the spec: \<^verbatim>\<open>gameEnum\<close> (declared in \<^verbatim>\<open>@shared/schema\<close>), the fixed
  closed set of supported games, three values in the observed deployment; they are the
  three names the read-only verification handler lists.
\<close>

definition gameEnum :: "string list" where
  "gameEnum = [''PUBG MOBILE'', ''LAST ISLAND OF SURVIVAL'', ''STANDOFF2'']"

text \<open>
  The value of \<^verbatim>\<open>insertKeySchema.parse(formData)\<close> as far as the handler reads it; the
  schema is declared in \<^verbatim>\<open>@shared/schema\<close>. \<open>kd_keyString\<close> is the optional custom key
  string.
\<close>

record key_data =
  kd_keyString :: "string option"
  kd_game :: string
  kd_deviceLimit :: int
  kd_expiryDate :: int

text \<open>
  Modelled from the spec: \<^verbatim>\<open>storage.getReseller\<close> (module \<^verbatim>\<open>./storage\<close>),
  \<^verbatim>\<open>findReseller(id) -> Reseller | none\<close>.
\<close>

definition getReseller :: "int \<Rightarrow> store \<Rightarrow> reseller option" where
  "getReseller rid st = find (\<lambda>r. r_id r = rid) (st_resellers st)"

text \<open>
  Modelled from the spec: \<^verbatim>\<open>storage.updateResellerCredits\<close> (module \<^verbatim>\<open>./storage\<close>),
  \<^verbatim>\<open>adjust(resellerId, delta) -> Reseller\<close>: adds \<open>delta\<close>, which may be negative, with
  no lower bound, and fails with \<^verbatim>\<open>ResellerNotFound\<close> if the reseller is absent.
\<close>

definition updateResellerCredits :: "int \<Rightarrow> int \<Rightarrow> store \<Rightarrow> string + reseller \<times> store" where
  "updateResellerCredits rid delta st =
     (case getReseller rid st of
        None \<Rightarrow> Inl ''ResellerNotFound''
      | Some r \<Rightarrow>
          Inr (r\<lparr>r_credits := r_credits r + delta\<rparr>,
               st\<lparr>st_resellers :=
                    map (\<lambda>x. if r_id x = rid then x\<lparr>r_credits := r_credits x + delta\<rparr> else x)
                        (st_resellers st)\<rparr>))"

text \<open>
  Modelled from the spec: the identifier \<^verbatim>\<open>storage.createKey\<close> gives a new key, an
  opaque integer that no stored key has; here one more than the largest identifier in
  the key table.
\<close>

definition next_key_id :: "store \<Rightarrow> int" where
  "next_key_id st = fold max (map k_id (st_keys st)) 0 + 1"

text \<open>
  Modelled from the spec: \<^verbatim>\<open>storage.createKey\<close> (module \<^verbatim>\<open>./storage\<close>),
  \<^verbatim>\<open>insertKey(Key) -> Key\<close>: appends a new Key record with the given key string, game,
  device limit, expiry and reseller, the creation timestamp and \<^verbatim>\<open>revoked = false\<close>.
\<close>

definition createKey :: "int \<Rightarrow> key_data \<Rightarrow> string \<Rightarrow> int \<Rightarrow> store \<Rightarrow> key \<times> store" where
  "createKey now kd keyString resellerId st =
     (let k = \<lparr>k_id = next_key_id st, k_keyString = keyString, k_game = kd_game kd,
                k_resellerId = resellerId, k_deviceLimit = kd_deviceLimit kd,
                k_createdAt = now, k_expiryDate = kd_expiryDate kd, k_isRevoked = False\<rparr>
      in (k, st\<lparr>st_keys := st_keys st @ [k]\<rparr>))"

text \<open>
  A JavaScript string is truthy unless it is empty, so
  \<^verbatim>\<open>keyData.keyString || generateKeyString(...)\<close> takes the custom string only when it is
  present and not empty.
\<close>

definition custom_key :: "key_data \<Rightarrow> string option" where
  "custom_key kd =
     (case kd_keyString kd of None \<Rightarrow> None | Some s \<Rightarrow> if s = [] then None else Some s)"

text \<open>
  \<^verbatim>\<open>req.body.count || 1\<close> for a count that is absent (\<open>None\<close>) or an integer: absent
  and 0 are falsy. The handler reads the field from the request body as it arrives, so
  a client can also send a fraction, a string or another JSON value; such counts follow
  the number conversions of JavaScript and are outside this model.
\<close>

definition count_or_one :: "int option \<Rightarrow> int" where
  "count_or_one c = (case c of None \<Rightarrow> 1 | Some n \<Rightarrow> if n = 0 then 1 else n)"

text \<open>
  The loop \<^verbatim>\<open>for (let i = 0; i < count; i++)\<close> of the issuance handler, from iteration
  \<open>i\<close> on: \<open>n\<close> is the number of \<^verbatim>\<open>nanoid\<close> results used so far, \<open>acc\<close> is
  \<^verbatim>\<open>generatedKeys\<close>. Each iteration evaluates
  \<^verbatim>\<open>keyData.keyString || generateKeyString(game)\<close> first, and after the first iteration
  generates a second string, which is the one stored. A rejected \<^verbatim>\<open>createKey\<close> leaves
  the loop with the error and the store as it is at that moment.
\<close>

function generate_loop ::
  "faults \<Rightarrow> (nat \<Rightarrow> string) \<Rightarrow> int \<Rightarrow> int \<Rightarrow> key_data \<Rightarrow> int \<Rightarrow> int \<Rightarrow> nat \<Rightarrow> store \<Rightarrow> key list
     \<Rightarrow> string \<times> store + key list \<times> store" where
  "generate_loop flt rnd now uid kd count i n st acc =
     (if i < count then
        (let (keyString, n1) =
               (case custom_key kd of
                  Some s \<Rightarrow> (s, n)
                | None \<Rightarrow> (draw rnd (kd_game kd) n, n + 3));
             (stored, n2) =
               (if i = 0 then (keyString, n1) else (draw rnd (kd_game kd) n1, n1 + 3))
         in case flt (CreateKey i) of
              Some err \<Rightarrow> Inl (err, st)
            | None \<Rightarrow>
                (let (k, st') = createKey now kd stored uid st
                 in generate_loop flt rnd now uid kd count (i + 1) n2 st' (acc @ [k])))
      else Inr (acc, st))"
  by pat_completeness auto
termination
  by (relation "measure (\<lambda>(flt, rnd, now, uid, kd, count, i, n, st, acc). nat (count - i))") auto

datatype generate_body =
  Generated "key list" int
  | GenerateFailed string

text \<open>
  \<^verbatim>\<open>POST /api/reseller/keys/generate\<close>, after the \<^verbatim>\<open>isReseller\<close> middleware let the
  request through: \<open>uid\<close> is \<^verbatim>\<open>req.user.id\<close>, \<open>parsed\<close> the outcome of
  \<^verbatim>\<open>insertKeySchema.parse(formData)\<close> (\<open>Inl msg\<close> for a thrown validation error),
  \<open>bodyCount\<close> the field \<^verbatim>\<open>req.body.count\<close> when it is absent or an
  integer. \<open>Generated ks c\<close> is the body
  \<^verbatim>\<open>{success: true, keys: ks, remainingCredits: c}\<close>, \<open>GenerateFailed msg\<close> the body
  \<^verbatim>\<open>{message: msg}\<close>. The mirror of the issued keys into the reseller's own JSON file
  is not part of the store: its errors are caught and logged, and it changes neither the
  answer nor the tables.
\<close>

definition generate_keys ::
  "faults \<Rightarrow> (nat \<Rightarrow> string) \<Rightarrow> int \<Rightarrow> int \<Rightarrow> string + key_data \<Rightarrow> int option \<Rightarrow> store
     \<Rightarrow> generate_body response \<times> store" where
  "generate_keys flt rnd now uid parsed bodyCount st =
     (case parsed of
        Inl err \<Rightarrow> (\<lparr>status = 400, body = GenerateFailed err\<rparr>, st)
      | Inr keyData \<Rightarrow>
          if kd_game keyData \<notin> set gameEnum then
            (\<lparr>status = 400, body = GenerateFailed ''Invalid game selection''\<rparr>, st)
          else
            (case (case custom_key keyData of
                     None \<Rightarrow> Inr False
                   | Some s \<Rightarrow>
                       (case flt GetKey of
                          Some err \<Rightarrow> Inl err
                        | None \<Rightarrow> Inr (getKey s st \<noteq> None))) of
               Inl err \<Rightarrow> (\<lparr>status = 400, body = GenerateFailed err\<rparr>, st)
             | Inr True \<Rightarrow>
                 (\<lparr>status = 400, body = GenerateFailed ''This key already exists''\<rparr>, st)
             | Inr False \<Rightarrow>
                 (case flt GetReseller of
                    Some err \<Rightarrow> (\<lparr>status = 400, body = GenerateFailed err\<rparr>, st)
                  | None \<Rightarrow>
                    (case getReseller uid st of
                       None \<Rightarrow>
                         (\<lparr>status = 404, body = GenerateFailed ''Reseller not found''\<rparr>, st)
                     | Some reseller \<Rightarrow>
                         (let count = count_or_one bodyCount
                          in if r_credits reseller < count then
                               (\<lparr>status = 400,
                                 body = GenerateFailed ''Insufficient credits''\<rparr>, st)
                             else
                               (case generate_loop flt rnd now uid keyData count 0 0 st [] of
                                  Inl (err, st') \<Rightarrow>
                                    (\<lparr>status = 400, body = GenerateFailed err\<rparr>, st')
                                | Inr (generatedKeys, st') \<Rightarrow>
                                    (case flt UpdateResellerCredits of
                                       Some err \<Rightarrow>
                                         (\<lparr>status = 400, body = GenerateFailed err\<rparr>, st')
                                     | None \<Rightarrow>
                                       (case updateResellerCredits uid (- count) st' of
                                          Inl err \<Rightarrow>
                                            (\<lparr>status = 400, body = GenerateFailed err\<rparr>, st')
                                        | Inr (updated, st'') \<Rightarrow>
                                            (\<lparr>status = 201,
                                              body = Generated generatedKeys
                                                       (r_credits reseller - count)\<rparr>,
                                             st'')))))))))"

text \<open>
  Two readings of the loop body, used to state what one iteration does: the key string
  iteration \<open>i\<close> stores when \<open>n\<close> results of \<^verbatim>\<open>nanoid\<close> have been used before it, and
  the number of results the iteration uses.
\<close>

definition stored_string :: "(nat \<Rightarrow> string) \<Rightarrow> key_data \<Rightarrow> int \<Rightarrow> nat \<Rightarrow> string" where
  "stored_string rnd kd i n =
     (case custom_key kd of
        Some s \<Rightarrow> if i = 0 then s else draw rnd (kd_game kd) n
      | None \<Rightarrow> if i = 0 then draw rnd (kd_game kd) n else draw rnd (kd_game kd) (n + 3))"

definition draws_used :: "key_data \<Rightarrow> int \<Rightarrow> nat" where
  "draws_used kd i =
     (case custom_key kd of
        Some s \<Rightarrow> if i = 0 then 0 else 3
      | None \<Rightarrow> if i = 0 then 3 else 6)"

text \<open>The \<^verbatim>\<open>keys\<close> field of the issuance answer; a failure body has none.\<close>

definition generated_keys :: "generate_body \<Rightarrow> key list" where
  "generated_keys b = (case b of Generated ks c \<Rightarrow> ks | GenerateFailed msg \<Rightarrow> [])"

text \<open>
  The loop read as a whole, from its first iteration: the number of results of
  \<^verbatim>\<open>nanoid\<close> used before iteration \<open>j\<close>, and the key string iteration \<open>j\<close> stores.
  With a custom key string the first iteration stores it and uses no result, and every
  later iteration generates one string; without one every iteration generates a string
  first, stored by the first iteration only, and every later iteration generates a second
  string, which it stores.
\<close>

definition draws_before :: "key_data \<Rightarrow> nat \<Rightarrow> nat" where
  "draws_before kd j =
     (case custom_key kd of
        Some s \<Rightarrow> 3 * (j - 1)
      | None \<Rightarrow> if j = 0 then 0 else 6 * j - 3)"

definition batch_key_string :: "(nat \<Rightarrow> string) \<Rightarrow> key_data \<Rightarrow> nat \<Rightarrow> string" where
  "batch_key_string rnd kd j =
     (case custom_key kd of
        Some s \<Rightarrow> if j = 0 then s else draw rnd (kd_game kd) (3 * (j - 1))
      | None \<Rightarrow> draw rnd (kd_game kd) (6 * j))"

declare generate_loop.simps [simp del]

section \<open>Example data\<close>

text \<open>
  A small store: one STANDOFF2 key of reseller 7 with room for two devices, one device
  bound to it, and the reseller with 5 credits.
\<close>

definition example_key :: key where
  "example_key =
     \<lparr>k_id = 1, k_keyString = ''STDF-AAAAA-BBBBB-CCCCC'', k_game = ''STANDOFF2'',
      k_resellerId = 7, k_deviceLimit = 2, k_createdAt = 1000, k_expiryDate = 5000,
      k_isRevoked = False\<rparr>"

definition example_store :: store where
  "example_store =
     \<lparr>st_keys = [example_key],
      st_devices = [\<lparr>d_keyId = 1, d_deviceId = ''phone-1''\<rparr>],
      st_resellers = [\<lparr>r_id = 7, r_username = ''alice'', r_credits = 5, r_isActive = True\<rparr>]\<rparr>"

text \<open>The same store with a second device bound to the key, which is then full.\<close>

definition full_store :: store where
  "full_store =
     example_store\<lparr>st_devices := st_devices example_store @ [\<lparr>d_keyId = 1, d_deviceId = ''phone-2''\<rparr>]\<rparr>"

text \<open>The same store after the key has been revoked.\<close>

definition revoked_store :: store where
  "revoked_store = example_store\<lparr>st_keys := [example_key\<lparr>k_isRevoked := True\<rparr>]\<rparr>"

definition example_request :: "string \<Rightarrow> string \<Rightarrow> verify_request" where
  "example_request dev g = \<lparr>rq_key = ''STDF-AAAAA-BBBBB-CCCCC'', rq_deviceId = dev, rq_game = g\<rparr>"

text \<open>
  A random source: the results of \<^verbatim>\<open>nanoid(5)\<close> run through five strings of the
  package's alphabet.
\<close>

definition example_rnd :: "nat \<Rightarrow> string" where
  "example_rnd n = [''ab_cd'', ''Xy-12'', ''q9ZZk'', ''m_T-4'', ''hello''] ! (n mod 5)"

text \<open>
  A random source whose every result is the same string of the package's alphabet:
  unlikely, and possible.
\<close>

definition constant_rnd :: "nat \<Rightarrow> string" where
  "constant_rnd n = ''aaaaa''"

definition example_key_data :: "string option \<Rightarrow> key_data" where
  "example_key_data custom =
     \<lparr>kd_keyString = custom, kd_game = ''STANDOFF2'', kd_deviceLimit = 2, kd_expiryDate = 9000\<rparr>"

text \<open>A request during which the store rejects the second \<^verbatim>\<open>createKey\<close>.\<close>

definition example_faults :: faults where
  "example_faults = no_faults(CreateKey 1 := Some ''store unavailable'')"

section \<open>Properties of verification\<close>

lemma unseen_iff:
  "list_ex (\<lambda>d. d_deviceId d = did) ds \<longleftrightarrow> did \<in> d_deviceId ` set ds"
  by (auto simp: list_ex_iff)

lemma addDevice_unseen:
  assumes "\<not> list_ex (\<lambda>d. d_deviceId d = did) (getDevicesByKeyId kid st)"
  shows "addDevice kid did st =
           Inr (\<lparr>d_keyId = kid, d_deviceId = did\<rparr>,
                st\<lparr>st_devices := st_devices st @ [\<lparr>d_keyId = kid, d_deviceId = did\<rparr>]\<rparr>)"
proof -
  have "\<lparr>d_keyId = kid, d_deviceId = did\<rparr> \<notin> set (st_devices st)"
    using assms by (force simp: getDevicesByKeyId_def list_ex_iff)
  then show ?thesis by (simp add: addDevice_def Let_def)
qed

lemma verify_post_keys: "st_keys (snd (verify_post flt now parsed st)) = st_keys st"
  by (auto simp: verify_post_def Let_def addDevice_def split: sum.split option.split)

subsection \<open>The device limit\<close>

text \<open>
  C1. Take a key that the store holds under the presented key string, issued for the
  requested game, not revoked and not expired, and a device id that is not among the
  devices bound to the key. If the number of bound devices is at least the key's device
  limit, \<^verbatim>\<open>POST /api/verify\<close> answers invalid with the message
  "Device limit reached for this license key", reports the current count and the limit,
  and leaves the store as it was. If the count is below the limit, it appends the device
  to the registry and answers valid with the count raised by one. So the message is the
  limit message exactly when the count has reached the limit: the N-th distinct device of
  a key with limit N is admitted and the next one is turned away.
\<close>

theorem verify_device_limit_boundary:
  assumes "getKey (rq_key rq) st = Some k"
    and "k_game k = rq_game rq"
    and "\<not> k_isRevoked k"
    and "now < k_expiryDate k"
    and "rq_deviceId rq \<notin> d_deviceId ` set (getDevicesByKeyId (k_id k) st)"
  shows "(k_deviceLimit k \<le> int (length (getDevicesByKeyId (k_id k) st)) \<longrightarrow>
            verify_post no_faults now (Inr rq) st =
              (json \<lparr>valid = False, message = ''Device limit reached for this license key'',
                     expiry = Some (k_expiryDate k), deviceLimit = Some (k_deviceLimit k),
                     currentDevices = Some (int (length (getDevicesByKeyId (k_id k) st))),
                     canRegister = None\<rparr>, st))
       \<and> (int (length (getDevicesByKeyId (k_id k) st)) < k_deviceLimit k \<longrightarrow>
            verify_post no_faults now (Inr rq) st =
              (json \<lparr>valid = True, message = ''License valid'',
                     expiry = Some (k_expiryDate k), deviceLimit = Some (k_deviceLimit k),
                     currentDevices = Some (int (length (getDevicesByKeyId (k_id k) st)) + 1),
                     canRegister = None\<rparr>,
               st\<lparr>st_devices :=
                    st_devices st @ [\<lparr>d_keyId = k_id k, d_deviceId = rq_deviceId rq\<rparr>]\<rparr>))
       \<and> ((message (body (fst (verify_post no_faults now (Inr rq) st))) =
              ''Device limit reached for this license key'')
            = (k_deviceLimit k \<le> int (length (getDevicesByKeyId (k_id k) st))))"
proof -
  have unseen: "\<not> list_ex (\<lambda>d. d_deviceId d = rq_deviceId rq) (getDevicesByKeyId (k_id k) st)"
    using assms(5) by (simp add: unseen_iff)
  show ?thesis
    using assms(1-4) unseen
    by (simp add: verify_post_def no_faults_def Let_def addDevice_unseen json_def)
qed

theorem verify_device_limit_boundary_witness:
  "verify_post no_faults 2000 (Inr (example_request ''phone-2'' ''STANDOFF2'')) example_store =
     (json \<lparr>valid = True, message = ''License valid'', expiry = Some 5000,
            deviceLimit = Some 2, currentDevices = Some 2, canRegister = None\<rparr>, full_store)
   \<and> verify_post no_faults 2000 (Inr (example_request ''phone-3'' ''STANDOFF2'')) full_store =
     (json \<lparr>valid = False, message = ''Device limit reached for this license key'',
            expiry = Some 5000, deviceLimit = Some 2, currentDevices = Some 2,
            canRegister = None\<rparr>, full_store)"
proof
  have k: "getKey (rq_key (example_request ''phone-2'' ''STANDOFF2'')) example_store
             = Some example_key"
    by (simp add: getKey_def example_request_def example_store_def example_key_def)
  show "verify_post no_faults 2000 (Inr (example_request ''phone-2'' ''STANDOFF2'')) example_store =
     (json \<lparr>valid = True, message = ''License valid'', expiry = Some 5000,
            deviceLimit = Some 2, currentDevices = Some 2, canRegister = None\<rparr>, full_store)"
    using verify_device_limit_boundary [OF k, of 2000]
    by (simp add: example_request_def example_store_def example_key_def full_store_def
          getDevicesByKeyId_def)
next
  have k: "getKey (rq_key (example_request ''phone-3'' ''STANDOFF2'')) full_store
             = Some example_key"
    by (simp add: getKey_def example_request_def example_store_def example_key_def full_store_def)
  show "verify_post no_faults 2000 (Inr (example_request ''phone-3'' ''STANDOFF2'')) full_store =
     (json \<lparr>valid = False, message = ''Device limit reached for this license key'',
            expiry = Some 5000, deviceLimit = Some 2, currentDevices = Some 2,
            canRegister = None\<rparr>, full_store)"
    using verify_device_limit_boundary [OF k, of 2000]
    by (simp add: example_request_def example_store_def example_key_def full_store_def
          getDevicesByKeyId_def)
qed

subsection \<open>Revoked keys\<close>

text \<open>
  C2, as amended. The handlers compare the key's game with the requested game before
  they look at the revoked flag. So for every key with \<^verbatim>\<open>revoked = true\<close> that the store
  holds under the presented key string, both verification entry points answer with
  status 200 and \<^verbatim>\<open>valid: false\<close>, whatever the device id and whatever the expiry date:
  with the message "License key has been revoked" when the requested game is the key's
  game, and with the message "License key is not valid for this game" when it is not
  (for the read-only entry point the three path parameters must pass its own validation).
  The answer leaves the store as it was, and no call of \<^verbatim>\<open>POST /api/verify\<close>, whatever
  its input and outcome, changes the key table, so the key is found revoked again on
  every later verification.
\<close>

theorem revoked_key_rejected:
  assumes "getKey ks st = Some k" and "k_isRevoked k"
  shows "(k_game k = g \<longrightarrow>
            verify_post no_faults now (Inr \<lparr>rq_key = ks, rq_deviceId = d, rq_game = g\<rparr>) st =
              (\<lparr>status = 200,
                body = \<lparr>valid = False, message = ''License key has been revoked'',
                         expiry = None, deviceLimit = None, currentDevices = None,
                         canRegister = None\<rparr>\<rparr>, st))
       \<and> (k_game k \<noteq> g \<longrightarrow>
            verify_post no_faults now (Inr \<lparr>rq_key = ks, rq_deviceId = d, rq_game = g\<rparr>) st =
              (\<lparr>status = 200,
                body = \<lparr>valid = False, message = ''License key is not valid for this game'',
                         expiry = None, deviceLimit = None, currentDevices = None,
                         canRegister = None\<rparr>\<rparr>, st))
       \<and> (ks \<noteq> [] \<and> d \<noteq> []
            \<and> g \<in> {''PUBG MOBILE'', ''LAST ISLAND OF SURVIVAL'', ''STANDOFF2''} \<longrightarrow>
            (k_game k = g \<longrightarrow>
               verify_get no_faults now ks g d st =
                 (\<lparr>status = 200,
                   body = \<lparr>valid = False, message = ''License key has been revoked'',
                            expiry = None, deviceLimit = None, currentDevices = None,
                            canRegister = None\<rparr>\<rparr>, st))
            \<and> (k_game k \<noteq> g \<longrightarrow>
               verify_get no_faults now ks g d st =
                 (\<lparr>status = 200,
                   body = \<lparr>valid = False, message = ''License key is not valid for this game'',
                            expiry = None, deviceLimit = None, currentDevices = None,
                            canRegister = None\<rparr>\<rparr>, st)))
       \<and> getKey ks (snd (verify_post flt now' parsed st)) = Some k"
proof (intro conjI impI)
  assume "k_game k = g"
  then show "verify_post no_faults now (Inr \<lparr>rq_key = ks, rq_deviceId = d, rq_game = g\<rparr>) st =
              (\<lparr>status = 200,
                body = \<lparr>valid = False, message = ''License key has been revoked'',
                         expiry = None, deviceLimit = None, currentDevices = None,
                         canRegister = None\<rparr>\<rparr>, st)"
    using assms by (simp add: verify_post_def no_faults_def json_def invalid_def)
next
  assume "k_game k \<noteq> g"
  then show "verify_post no_faults now (Inr \<lparr>rq_key = ks, rq_deviceId = d, rq_game = g\<rparr>) st =
              (\<lparr>status = 200,
                body = \<lparr>valid = False, message = ''License key is not valid for this game'',
                         expiry = None, deviceLimit = None, currentDevices = None,
                         canRegister = None\<rparr>\<rparr>, st)"
    using assms by (simp add: verify_post_def no_faults_def json_def invalid_def)
next
  assume "ks \<noteq> [] \<and> d \<noteq> []
            \<and> g \<in> {''PUBG MOBILE'', ''LAST ISLAND OF SURVIVAL'', ''STANDOFF2''}"
    and "k_game k = g"
  then show "verify_get no_faults now ks g d st =
                 (\<lparr>status = 200,
                   body = \<lparr>valid = False, message = ''License key has been revoked'',
                            expiry = None, deviceLimit = None, currentDevices = None,
                            canRegister = None\<rparr>\<rparr>, st)"
    using assms by (auto simp: verify_get_def no_faults_def json_def invalid_def)
next
  assume "ks \<noteq> [] \<and> d \<noteq> []
            \<and> g \<in> {''PUBG MOBILE'', ''LAST ISLAND OF SURVIVAL'', ''STANDOFF2''}"
    and "k_game k \<noteq> g"
  then show "verify_get no_faults now ks g d st =
                 (\<lparr>status = 200,
                   body = \<lparr>valid = False, message = ''License key is not valid for this game'',
                            expiry = None, deviceLimit = None, currentDevices = None,
                            canRegister = None\<rparr>\<rparr>, st)"
    using assms by (auto simp: verify_get_def no_faults_def json_def invalid_def)
next
  show "getKey ks (snd (verify_post flt now' parsed st)) = Some k"
    using assms(1) by (simp add: getKey_def verify_post_keys)
qed

theorem revoked_key_rejected_witness:
  "verify_post no_faults 9999 (Inr \<lparr>rq_key = ''STDF-AAAAA-BBBBB-CCCCC'',
        rq_deviceId = ''phone-1'', rq_game = ''STANDOFF2''\<rparr>) revoked_store =
     (\<lparr>status = 200,
       body = \<lparr>valid = False, message = ''License key has been revoked'',
                expiry = None, deviceLimit = None, currentDevices = None,
                canRegister = None\<rparr>\<rparr>, revoked_store)
   \<and> verify_get no_faults 9999 ''STDF-AAAAA-BBBBB-CCCCC'' ''STANDOFF2'' ''phone-9''
        revoked_store =
     (\<lparr>status = 200,
       body = \<lparr>valid = False, message = ''License key has been revoked'',
                expiry = None, deviceLimit = None, currentDevices = None,
                canRegister = None\<rparr>\<rparr>, revoked_store)
   \<and> verify_get no_faults 9999 ''STDF-AAAAA-BBBBB-CCCCC'' ''PUBG MOBILE'' ''phone-9''
        revoked_store =
     (\<lparr>status = 200,
       body = \<lparr>valid = False, message = ''License key is not valid for this game'',
                expiry = None, deviceLimit = None, currentDevices = None,
                canRegister = None\<rparr>\<rparr>, revoked_store)"
proof -
  have k: "getKey ''STDF-AAAAA-BBBBB-CCCCC'' revoked_store
             = Some (example_key\<lparr>k_isRevoked := True\<rparr>)"
    by (simp add: getKey_def revoked_store_def example_store_def example_key_def)
  have r: "k_isRevoked (example_key\<lparr>k_isRevoked := True\<rparr>)" by simp
  have g: "k_game (example_key\<lparr>k_isRevoked := True\<rparr>) = ''STANDOFF2''"
    by (simp add: example_key_def)
  show ?thesis
    using revoked_key_rejected [OF k r, of "''STANDOFF2''" 9999 "''phone-1''"]
      revoked_key_rejected [OF k r, of "''STANDOFF2''" 9999 "''phone-9''"]
      revoked_key_rejected [OF k r, of "''PUBG MOBILE''" 9999 "''phone-9''"] g
    by simp
qed

text \<open>
  The claim as first stated promised the revoked verdict regardless of the requested
  game. The key of \<open>revoked_store\<close> is a revoked STANDOFF2 key; verified for
  PUBG MOBILE it is answered with the wrong-game message, not the revoked one. The
  read-only entry point moreover answers 400 before it looks the key up when the game in
  the path is not a supported one or the device id is empty.
\<close>

theorem revoked_key_counterexample:
  "k_isRevoked (the (getKey ''STDF-AAAAA-BBBBB-CCCCC'' revoked_store))
   \<and> verify_post no_faults 2000 (Inr (example_request ''phone-1'' ''PUBG MOBILE'')) revoked_store =
       (\<lparr>status = 200,
         body = \<lparr>valid = False, message = ''License key is not valid for this game'',
                  expiry = None, deviceLimit = None, currentDevices = None,
                  canRegister = None\<rparr>\<rparr>, revoked_store)
   \<and> message (body (fst (verify_post no_faults 2000
         (Inr (example_request ''phone-1'' ''PUBG MOBILE'')) revoked_store))) \<noteq>
       ''License key has been revoked''
   \<and> verify_get no_faults 2000 ''STDF-AAAAA-BBBBB-CCCCC'' ''FREE FIRE'' ''phone-1'' revoked_store =
       (\<lparr>status = 400,
         body = \<lparr>valid = False,
                  message = ''Invalid game. Must be one of: PUBG MOBILE, LAST ISLAND OF SURVIVAL, STANDOFF2'',
                  expiry = None, deviceLimit = None, currentDevices = None,
                  canRegister = None\<rparr>\<rparr>, revoked_store)
   \<and> verify_get no_faults 2000 ''STDF-AAAAA-BBBBB-CCCCC'' ''STANDOFF2'' [] revoked_store =
       (\<lparr>status = 400,
         body = \<lparr>valid = False,
                  message = ''Missing required parameters. Need key, game, and deviceId.'',
                  expiry = None, deviceLimit = None, currentDevices = None,
                  canRegister = None\<rparr>\<rparr>, revoked_store)"
  by (simp add: verify_post_def verify_get_def no_faults_def getKey_def revoked_store_def
        example_store_def example_key_def example_request_def json_def invalid_def)

subsection \<open>The two entry points\<close>




subsection \<open>A device that is already registered\<close>

text \<open>
  C5, as amended. Take a key that the store holds under the presented key string and a
  device id already bound to it. A call of \<^verbatim>\<open>POST /api/verify\<close> for them never
  changes the store, so the device is neither registered again nor counted twice, and a
  second call with the same key string, game and device id on the store the first one
  left gives the same answer as the first, provided the key's expiry was not crossed in
  between. Both calls answer \<^verbatim>\<open>valid: true\<close>, with the same device count (the number
  of devices bound before the first call), when the key is issued for the requested
  game, not revoked and not expired at either call.
\<close>

theorem verify_registered_device_idempotent:
  assumes "getKey (rq_key rq) st = Some k"
    and "rq_deviceId rq \<in> d_deviceId ` set (getDevicesByKeyId (k_id k) st)"
  shows "snd (verify_post no_faults now1 (Inr rq) st) = st
       \<and> ((now1 < k_expiryDate k) = (now2 < k_expiryDate k) \<longrightarrow>
            fst (verify_post no_faults now2 (Inr rq) (snd (verify_post no_faults now1 (Inr rq) st)))
              = fst (verify_post no_faults now1 (Inr rq) st))
       \<and> (k_game k = rq_game rq \<and> \<not> k_isRevoked k
            \<and> now1 < k_expiryDate k \<and> now2 < k_expiryDate k \<longrightarrow>
            verify_post no_faults now1 (Inr rq) st =
              (\<lparr>status = 200,
                body = \<lparr>valid = True, message = ''License valid'',
                         expiry = Some (k_expiryDate k), deviceLimit = Some (k_deviceLimit k),
                         currentDevices = Some (int (length (getDevicesByKeyId (k_id k) st))),
                         canRegister = None\<rparr>\<rparr>, st)
            \<and> verify_post no_faults now2 (Inr rq) (snd (verify_post no_faults now1 (Inr rq) st)) =
              (\<lparr>status = 200,
                body = \<lparr>valid = True, message = ''License valid'',
                         expiry = Some (k_expiryDate k), deviceLimit = Some (k_deviceLimit k),
                         currentDevices = Some (int (length (getDevicesByKeyId (k_id k) st))),
                         canRegister = None\<rparr>\<rparr>, st))"
proof -
  have seen: "list_ex (\<lambda>d. d_deviceId d = rq_deviceId rq) (getDevicesByKeyId (k_id k) st)"
    using assms(2) by (simp add: unseen_iff)
  have call: "verify_post no_faults now (Inr rq) st =
      (if k_game k \<noteq> rq_game rq then json (invalid ''License key is not valid for this game'')
       else if k_isRevoked k then json (invalid ''License key has been revoked'')
       else if k_expiryDate k \<le> now then
         json ((invalid ''License key has expired'')\<lparr>expiry := Some (k_expiryDate k)\<rparr>)
       else json \<lparr>valid = True, message = ''License valid'',
                  expiry = Some (k_expiryDate k), deviceLimit = Some (k_deviceLimit k),
                  currentDevices = Some (int (length (getDevicesByKeyId (k_id k) st))),
                  canRegister = None\<rparr>, st)" for now
    using assms(1) seen by (simp add: verify_post_def no_faults_def Let_def)
  have unchanged: "snd (verify_post no_faults now1 (Inr rq) st) = st"
    by (simp add: call)
  show ?thesis
    unfolding unchanged by (auto simp: call json_def)
qed

theorem verify_registered_device_idempotent_witness:
  "verify_post no_faults 2000 (Inr (example_request ''phone-1'' ''STANDOFF2'')) example_store =
     (\<lparr>status = 200,
       body = \<lparr>valid = True, message = ''License valid'', expiry = Some 5000,
                deviceLimit = Some 2, currentDevices = Some 1, canRegister = None\<rparr>\<rparr>,
      example_store)
   \<and> verify_post no_faults 3000 (Inr (example_request ''phone-1'' ''STANDOFF2''))
       (snd (verify_post no_faults 2000 (Inr (example_request ''phone-1'' ''STANDOFF2''))
          example_store)) =
     (\<lparr>status = 200,
       body = \<lparr>valid = True, message = ''License valid'', expiry = Some 5000,
                deviceLimit = Some 2, currentDevices = Some 1, canRegister = None\<rparr>\<rparr>,
      example_store)"
proof -
  have k: "getKey (rq_key (example_request ''phone-1'' ''STANDOFF2'')) example_store
             = Some example_key"
    by (simp add: getKey_def example_request_def example_store_def example_key_def)
  have d: "rq_deviceId (example_request ''phone-1'' ''STANDOFF2'')
             \<in> d_deviceId ` set (getDevicesByKeyId (k_id example_key) example_store)"
    by (simp add: example_request_def example_store_def example_key_def getDevicesByKeyId_def)
  have live: "k_game example_key = rq_game (example_request ''phone-1'' ''STANDOFF2'')
      \<and> \<not> k_isRevoked example_key \<and> 2000 < k_expiryDate example_key
      \<and> 3000 < k_expiryDate example_key"
    by (simp add: example_request_def example_key_def)
  have n: "int (length (getDevicesByKeyId (k_id example_key) example_store)) = 1"
    by (simp add: example_store_def example_key_def getDevicesByKeyId_def)
  show ?thesis
    using verify_registered_device_idempotent [OF k d, of 2000 3000, THEN conjunct2,
        THEN conjunct2, THEN mp, OF live] n
    by (auto simp: example_key_def)
qed

text \<open>
  The claim as first stated promised \<^verbatim>\<open>valid: true\<close> for every key and every device
  bound to it. The device phone-1 is bound to the key of \<open>revoked_store\<close>, which is
  revoked, and to the key of \<open>example_store\<close>, a STANDOFF2 key that expires at 5000.
  Verified twice on \<open>revoked_store\<close>, twice for PUBG MOBILE on \<open>example_store\<close>, and
  twice at 6000 on \<open>example_store\<close>, it is answered \<^verbatim>\<open>valid: false\<close> both times, with
  the revoked, the wrong-game and the expired message.
\<close>

theorem verify_registered_device_counterexample:
  "getKey ''STDF-AAAAA-BBBBB-CCCCC'' revoked_store = Some (example_key\<lparr>k_isRevoked := True\<rparr>)
   \<and> getDevicesByKeyId 1 revoked_store = [\<lparr>d_keyId = 1, d_deviceId = ''phone-1''\<rparr>]
   \<and> verify_post no_faults 2000 (Inr \<lparr>rq_key = ''STDF-AAAAA-BBBBB-CCCCC'',
        rq_deviceId = ''phone-1'', rq_game = ''STANDOFF2''\<rparr>) revoked_store =
     (\<lparr>status = 200,
       body = \<lparr>valid = False, message = ''License key has been revoked'',
                expiry = None, deviceLimit = None, currentDevices = None,
                canRegister = None\<rparr>\<rparr>, revoked_store)
   \<and> verify_post no_faults 2000 (Inr \<lparr>rq_key = ''STDF-AAAAA-BBBBB-CCCCC'',
        rq_deviceId = ''phone-1'', rq_game = ''STANDOFF2''\<rparr>)
       (snd (verify_post no_faults 2000 (Inr \<lparr>rq_key = ''STDF-AAAAA-BBBBB-CCCCC'',
          rq_deviceId = ''phone-1'', rq_game = ''STANDOFF2''\<rparr>) revoked_store)) =
     (\<lparr>status = 200,
       body = \<lparr>valid = False, message = ''License key has been revoked'',
                expiry = None, deviceLimit = None, currentDevices = None,
                canRegister = None\<rparr>\<rparr>, revoked_store)
   \<and> getKey ''STDF-AAAAA-BBBBB-CCCCC'' example_store = Some example_key
   \<and> getDevicesByKeyId 1 example_store = [\<lparr>d_keyId = 1, d_deviceId = ''phone-1''\<rparr>]
   \<and> verify_post no_faults 2000 (Inr \<lparr>rq_key = ''STDF-AAAAA-BBBBB-CCCCC'',
        rq_deviceId = ''phone-1'', rq_game = ''PUBG MOBILE''\<rparr>) example_store =
     (\<lparr>status = 200,
       body = \<lparr>valid = False, message = ''License key is not valid for this game'',
                expiry = None, deviceLimit = None, currentDevices = None,
                canRegister = None\<rparr>\<rparr>, example_store)
   \<and> verify_post no_faults 2000 (Inr \<lparr>rq_key = ''STDF-AAAAA-BBBBB-CCCCC'',
        rq_deviceId = ''phone-1'', rq_game = ''PUBG MOBILE''\<rparr>)
       (snd (verify_post no_faults 2000 (Inr \<lparr>rq_key = ''STDF-AAAAA-BBBBB-CCCCC'',
          rq_deviceId = ''phone-1'', rq_game = ''PUBG MOBILE''\<rparr>) example_store)) =
     (\<lparr>status = 200,
       body = \<lparr>valid = False, message = ''License key is not valid for this game'',
                expiry = None, deviceLimit = None, currentDevices = None,
                canRegister = None\<rparr>\<rparr>, example_store)
   \<and> verify_post no_faults 6000 (Inr \<lparr>rq_key = ''STDF-AAAAA-BBBBB-CCCCC'',
        rq_deviceId = ''phone-1'', rq_game = ''STANDOFF2''\<rparr>) example_store =
     (\<lparr>status = 200,
       body = \<lparr>valid = False, message = ''License key has expired'',
                expiry = Some 5000, deviceLimit = None, currentDevices = None,
                canRegister = None\<rparr>\<rparr>, example_store)
   \<and> verify_post no_faults 6000 (Inr \<lparr>rq_key = ''STDF-AAAAA-BBBBB-CCCCC'',
        rq_deviceId = ''phone-1'', rq_game = ''STANDOFF2''\<rparr>)
       (snd (verify_post no_faults 6000 (Inr \<lparr>rq_key = ''STDF-AAAAA-BBBBB-CCCCC'',
          rq_deviceId = ''phone-1'', rq_game = ''STANDOFF2''\<rparr>) example_store)) =
     (\<lparr>status = 200,
       body = \<lparr>valid = False, message = ''License key has expired'',
                expiry = Some 5000, deviceLimit = None, currentDevices = None,
                canRegister = None\<rparr>\<rparr>, example_store)"
  by (simp add: verify_post_def no_faults_def getKey_def getDevicesByKeyId_def revoked_store_def
        example_store_def example_key_def json_def invalid_def)

subsection \<open>Unknown keys\<close>

text \<open>
  C7. Verifying a key string that the key store does not hold is an ordinary answer:
  for every request that passed the schema, while the store answers its calls,
  \<^verbatim>\<open>POST /api/verify\<close> replies with status 200 and the body
  \<^verbatim>\<open>{valid: false, message: "Invalid license key"}\<close>, and changes nothing. More
  generally every request that passed the schema is answered with status 200 whatever
  the state of the key: no business-rule outcome is an error status.
\<close>

theorem verify_unknown_key_is_verdict:
  "(getKey (rq_key rq) st = None \<longrightarrow>
      verify_post no_faults now (Inr rq) st =
        (\<lparr>status = 200,
          body = \<lparr>valid = False, message = ''Invalid license key'',
                   expiry = None, deviceLimit = None, currentDevices = None,
                   canRegister = None\<rparr>\<rparr>, st))
   \<and> status (fst (verify_post no_faults now (Inr rq) st)) = 200"
proof (intro conjI impI)
  assume "getKey (rq_key rq) st = None"
  then show "verify_post no_faults now (Inr rq) st =
        (\<lparr>status = 200,
          body = \<lparr>valid = False, message = ''Invalid license key'',
                   expiry = None, deviceLimit = None, currentDevices = None,
                   canRegister = None\<rparr>\<rparr>, st)"
    by (simp add: verify_post_def no_faults_def json_def invalid_def)
next
  show "status (fst (verify_post no_faults now (Inr rq) st)) = 200"
    by (simp add: verify_post_def no_faults_def json_def Let_def addDevice_unseen
             split: option.split)
qed

theorem verify_unknown_key_is_verdict_witness:
  "getKey (rq_key (example_request ''phone-1'' ''STANDOFF2'')) (example_store\<lparr>st_keys := []\<rparr>)
     = None
   \<and> verify_post no_faults 2000 (Inr (example_request ''phone-1'' ''STANDOFF2''))
        (example_store\<lparr>st_keys := []\<rparr>) =
       (\<lparr>status = 200,
         body = \<lparr>valid = False, message = ''Invalid license key'',
                  expiry = None, deviceLimit = None, currentDevices = None,
                  canRegister = None\<rparr>\<rparr>, example_store\<lparr>st_keys := []\<rparr>)"
proof -
  have k: "getKey (rq_key (example_request ''phone-1'' ''STANDOFF2''))
             (example_store\<lparr>st_keys := []\<rparr>) = None"
    by (simp add: getKey_def)
  show ?thesis
    using k verify_unknown_key_is_verdict
      [of "example_request ''phone-1'' ''STANDOFF2''" "example_store\<lparr>st_keys := []\<rparr>" 2000]
    by simp
qed

section \<open>Properties of the administrator's key deletion\<close>

lemma find_map_revoke_id:
  "find (\<lambda>k. k_id k = kid) ks = Some k \<Longrightarrow>
   find (\<lambda>k. k_id k = kid) (map (\<lambda>x. if k_id x = kid then x\<lparr>k_isRevoked := True\<rparr> else x) ks)
     = Some (k\<lparr>k_isRevoked := True\<rparr>)"
  by (induction ks) (auto split: if_splits)

text \<open>
  C9, as amended. \<^verbatim>\<open>DELETE /api/admin/keys/:id\<close> calls \<^verbatim>\<open>storage.revokeKey\<close> and
  nothing else. Applied to the id of a stored key it sets the key's revoked flag and
  answers with status 200, "Key revoked successfully" and the revoked key; the Key record
  stays in the store under the same id, the key table keeps its ids in their order, and
  the device table is untouched. Applied to an id no stored key has it answers 404
  "Key not found" and changes nothing.
\<close>

theorem admin_delete_revokes:
  "(find (\<lambda>x. k_id x = kid) (st_keys st) = Some k \<longrightarrow>
      admin_delete_key no_faults (Some kid) st =
        (\<lparr>status = 200,
          body = DeleteOk ''Key revoked successfully'' (k\<lparr>k_isRevoked := True\<rparr>)\<rparr>,
         st\<lparr>st_keys :=
              map (\<lambda>x. if k_id x = kid then x\<lparr>k_isRevoked := True\<rparr> else x) (st_keys st)\<rparr>)
      \<and> find (\<lambda>x. k_id x = kid) (st_keys (snd (admin_delete_key no_faults (Some kid) st)))
          = Some (k\<lparr>k_isRevoked := True\<rparr>)
      \<and> map k_id (st_keys (snd (admin_delete_key no_faults (Some kid) st)))
          = map k_id (st_keys st)
      \<and> st_devices (snd (admin_delete_key no_faults (Some kid) st)) = st_devices st)
   \<and> (find (\<lambda>x. k_id x = kid) (st_keys st) = None \<longrightarrow>
      admin_delete_key no_faults (Some kid) st =
        (\<lparr>status = 404, body = DeleteFailed ''Key not found''\<rparr>, st))"
  by (auto simp: admin_delete_key_def no_faults_def revokeKey_def find_map_revoke_id
        comp_def json_def)

theorem admin_delete_revokes_witness:
  "admin_delete_key no_faults (Some 1) example_store =
     (\<lparr>status = 200,
       body = DeleteOk ''Key revoked successfully'' (example_key\<lparr>k_isRevoked := True\<rparr>)\<rparr>,
      revoked_store)
   \<and> admin_delete_key no_faults (Some 2) example_store =
     (\<lparr>status = 404, body = DeleteFailed ''Key not found''\<rparr>, example_store)"
proof -
  have k1: "find (\<lambda>x. k_id x = 1) (st_keys example_store) = Some example_key"
    by (simp add: example_store_def example_key_def)
  have k2: "find (\<lambda>x. k_id x = 2) (st_keys example_store) = None"
    by (simp add: example_store_def example_key_def)
  show ?thesis
    using k1 k2 admin_delete_revokes [of 1 example_store example_key]
      admin_delete_revokes [of 2 example_store]
    by (simp add: example_store_def example_key_def revoked_store_def)
qed

text \<open>
  The claim as first stated had the operation remove the Key record and the Device
  records bound to it. After the operation on key 1 of \<open>example_store\<close> the key is still
  found under its key string, now revoked, and its device is still bound to it.
\<close>

theorem admin_delete_counterexample:
  "getKey ''STDF-AAAAA-BBBBB-CCCCC'' (snd (admin_delete_key no_faults (Some 1) example_store))
     = Some (example_key\<lparr>k_isRevoked := True\<rparr>)
   \<and> getDevicesByKeyId 1 (snd (admin_delete_key no_faults (Some 1) example_store))
     = [\<lparr>d_keyId = 1, d_deviceId = ''phone-1''\<rparr>]"
  by (simp add: admin_delete_key_def no_faults_def revokeKey_def getKey_def getDevicesByKeyId_def
        example_store_def example_key_def)

section \<open>Properties of issuance\<close>

lemma generate_loop_done:
  "\<not> i < count \<Longrightarrow> generate_loop flt rnd now uid kd count i n st acc = Inr (acc, st)"
  by (simp add: generate_loop.simps)

lemma generate_loop_fault:
  "i < count \<Longrightarrow> flt (CreateKey i) = Some err \<Longrightarrow>
   generate_loop flt rnd now uid kd count i n st acc = Inl (err, st)"
  by (subst generate_loop.simps) (simp add: Let_def split: prod.split)

lemma generate_loop_step:
  "i < count \<Longrightarrow> flt (CreateKey i) = None \<Longrightarrow>
   generate_loop flt rnd now uid kd count i n st acc =
     generate_loop flt rnd now uid kd count (i + 1) (n + draws_used kd i)
       (snd (createKey now kd (stored_string rnd kd i n) uid st))
       (acc @ [fst (createKey now kd (stored_string rnd kd i n) uid st)])"
  by (subst generate_loop.simps)
     (simp add: Let_def stored_string_def draws_used_def add.commute split: prod.split option.split)

lemma createKey_store:
  "snd (createKey now kd s uid st) = st\<lparr>st_keys := st_keys st @ [fst (createKey now kd s uid st)]\<rparr>"
  by (simp add: createKey_def Let_def)

lemma generate_loop_Inr:
  "generate_loop flt rnd now uid kd count i n st acc = Inr (acc', st') \<Longrightarrow>
   \<exists>new. acc' = acc @ new \<and> st' = st\<lparr>st_keys := st_keys st @ new\<rparr>
        \<and> int (length new) = max 0 (count - i)"
proof (induction "nat (count - i)" arbitrary: i n st acc)
  case 0
  then have "\<not> i < count" by simp
  with "0.prems" show ?case by (simp add: generate_loop_done)
next
  case (Suc m)
  then have lt: "i < count" by simp
  show ?case
  proof (cases "flt (CreateKey i)")
    case (Some err)
    with lt Suc.prems show ?thesis by (simp add: generate_loop_fault)
  next
    case None
    let ?k = "fst (createKey now kd (stored_string rnd kd i n) uid st)"
    let ?st = "snd (createKey now kd (stored_string rnd kd i n) uid st)"
    have m: "m = nat (count - (i + 1))" using Suc.hyps(2) by simp
    have rec: "generate_loop flt rnd now uid kd count (i + 1) (n + draws_used kd i) ?st (acc @ [?k])
                 = Inr (acc', st')"
      using Suc.prems generate_loop_step [where flt = flt and i = i, OF lt None] by simp
    from Suc.hyps(1) [OF m rec] obtain new where
      new: "acc' = (acc @ [?k]) @ new" "st' = ?st\<lparr>st_keys := st_keys ?st @ new\<rparr>"
           "int (length new) = max 0 (count - (i + 1))"
      by blast
    have "acc' = acc @ (?k # new)" using new(1) by simp
    moreover have "st' = st\<lparr>st_keys := st_keys st @ (?k # new)\<rparr>"
      using new(2) by (simp add: createKey_store)
    moreover have "int (length (?k # new)) = max 0 (count - i)"
      using new(3) lt by simp
    ultimately show ?thesis by blast
  qed
qed

lemma generate_loop_Inl:
  "generate_loop flt rnd now uid kd count i n st acc = Inl (err, st') \<Longrightarrow>
   \<exists>new. st' = st\<lparr>st_keys := st_keys st @ new\<rparr> \<and> int (length new) < count - i"
proof (induction "nat (count - i)" arbitrary: i n st acc)
  case 0
  then have "\<not> i < count" by simp
  with "0.prems" show ?case by (simp add: generate_loop_done)
next
  case (Suc m)
  then have lt: "i < count" by simp
  show ?case
  proof (cases "flt (CreateKey i)")
    case (Some e)
    with lt Suc.prems have "st' = st" by (simp add: generate_loop_fault)
    then have "st' = st\<lparr>st_keys := st_keys st @ []\<rparr> \<and> int (length ([] :: key list)) < count - i"
      using lt by simp
    then show ?thesis by blast
  next
    case None
    let ?k = "fst (createKey now kd (stored_string rnd kd i n) uid st)"
    let ?st = "snd (createKey now kd (stored_string rnd kd i n) uid st)"
    have m: "m = nat (count - (i + 1))" using Suc.hyps(2) by simp
    have rec: "generate_loop flt rnd now uid kd count (i + 1) (n + draws_used kd i) ?st (acc @ [?k])
                 = Inl (err, st')"
      using Suc.prems generate_loop_step [where flt = flt and i = i, OF lt None] by simp
    from Suc.hyps(1) [OF m rec] obtain new where
      new: "st' = ?st\<lparr>st_keys := st_keys ?st @ new\<rparr>"
           "int (length new) < count - (i + 1)"
      by blast
    have "st' = st\<lparr>st_keys := st_keys st @ (?k # new)\<rparr>"
      using new(1) by (simp add: createKey_store)
    moreover have "int (length (?k # new)) < count - i"
      using new(2) by simp
    ultimately show ?thesis by blast
  qed
qed

lemma find_map_credits:
  "find (\<lambda>r. r_id r = rid) rs = Some r \<Longrightarrow>
   find (\<lambda>r. r_id r = rid) (map (\<lambda>x. if r_id x = rid then x\<lparr>r_credits := r_credits x + d\<rparr> else x) rs)
     = Some (r\<lparr>r_credits := r_credits r + d\<rparr>)"
  by (induction rs) (auto split: if_splits)

lemma updateResellerCredits_found:
  assumes "getReseller rid st = Some r"
  shows "\<exists>st'. updateResellerCredits rid d st = Inr (r\<lparr>r_credits := r_credits r + d\<rparr>, st')
           \<and> getReseller rid st' = Some (r\<lparr>r_credits := r_credits r + d\<rparr>)
           \<and> st_keys st' = st_keys st \<and> st_devices st' = st_devices st"
  using assms by (simp add: updateResellerCredits_def getReseller_def find_map_credits)

text \<open>The three kinds of outcome of the issuance handler.\<close>

lemma generate_keys_cases:
  assumes "generate_keys flt rnd now uid parsed bodyCount st = (resp, st')"
  shows "(\<exists>msg new. resp = \<lparr>status = 400, body = GenerateFailed msg\<rparr>
              \<and> st' = st\<lparr>st_keys := st_keys st @ new\<rparr>)
       \<or> (resp = \<lparr>status = 404, body = GenerateFailed ''Reseller not found''\<rparr> \<and> st' = st)
       \<or> (\<exists>r ks. getReseller uid st = Some r
              \<and> resp = \<lparr>status = 201,
                        body = Generated ks (r_credits r - count_or_one bodyCount)\<rparr>
              \<and> getReseller uid st' = Some (r\<lparr>r_credits := r_credits r - count_or_one bodyCount\<rparr>)
              \<and> st_keys st' = st_keys st @ ks
              \<and> st_devices st' = st_devices st
              \<and> int (length ks) = max 0 (count_or_one bodyCount))"
proof (cases parsed)
  case (Inl err)
  with assms have "resp = \<lparr>status = 400, body = GenerateFailed err\<rparr> \<and> st' = st\<lparr>st_keys := st_keys st @ []\<rparr>"
    by (auto simp: generate_keys_def)
  then show ?thesis by blast
next
  case (Inr kd)
  let ?c = "count_or_one bodyCount"
  have same: "st = st\<lparr>st_keys := st_keys st @ []\<rparr>" by simp
  show ?thesis
  proof (cases "kd_game kd \<in> set gameEnum \<and> flt GetReseller = None
                \<and> (case custom_key kd of None \<Rightarrow> True
                    | Some s \<Rightarrow> flt GetKey = None \<and> getKey s st = None)")
    case False
    with assms Inr have "(\<exists>msg. resp = \<lparr>status = 400, body = GenerateFailed msg\<rparr>) \<and> st' = st"
      by (auto simp: generate_keys_def split: option.splits if_splits bool.splits)
    with same show ?thesis by metis
  next
    case pre: True
    show ?thesis
    proof (cases "getReseller uid st")
      case None
      with assms Inr pre show ?thesis
        by (auto simp: generate_keys_def split: option.splits)
    next
      case (Some r)
      show ?thesis
      proof (cases "r_credits r < ?c")
        case True
        with assms Inr pre Some
        have "resp = \<lparr>status = 400, body = GenerateFailed ''Insufficient credits''\<rparr> \<and> st' = st"
          by (auto simp: generate_keys_def split: option.splits)
        with same show ?thesis by metis
      next
        case enough: False
        show ?thesis
        proof (cases "generate_loop flt rnd now uid kd ?c 0 0 st []")
          case (Inl e)
          obtain err st1 where e: "e = (err, st1)" by (cases e)
          from assms Inr pre Some enough Inl e
          have r: "resp = \<lparr>status = 400, body = GenerateFailed err\<rparr>" "st' = st1"
            by (auto simp: generate_keys_def split: option.splits)
          from generate_loop_Inl Inl e obtain new where "st1 = st\<lparr>st_keys := st_keys st @ new\<rparr>"
            by blast
          with r show ?thesis by blast
        next
          case (Inr res)
          obtain ks st1 where res: "res = (ks, st1)" by (cases res)
          from generate_loop_Inr Inr res obtain new where
            new: "ks = [] @ new" "st1 = st\<lparr>st_keys := st_keys st @ new\<rparr>"
                 "int (length new) = max 0 (?c - 0)"
            by blast
          have r1: "getReseller uid st1 = Some r"
            using Some new(2) by (simp add: getReseller_def)
          show ?thesis
          proof (cases "flt UpdateResellerCredits")
            case (Some err)
            with assms \<open>parsed = Inr kd\<close> pre \<open>getReseller uid st = Some r\<close> enough Inr res
            have "resp = \<lparr>status = 400, body = GenerateFailed err\<rparr>" "st' = st1"
              by (auto simp: generate_keys_def split: option.splits)
            with new(2) show ?thesis by blast
          next
            case None
            from updateResellerCredits_found [OF r1, of "- ?c"] obtain st2 where
              st2: "updateResellerCredits uid (- ?c) st1 = Inr (r\<lparr>r_credits := r_credits r + - ?c\<rparr>, st2)"
                   "getReseller uid st2 = Some (r\<lparr>r_credits := r_credits r + - ?c\<rparr>)"
                   "st_keys st2 = st_keys st1" "st_devices st2 = st_devices st1"
              by blast
            from assms \<open>parsed = Inr kd\<close> pre \<open>getReseller uid st = Some r\<close> enough Inr res None st2(1)
            have "resp = \<lparr>status = 201, body = Generated ks (r_credits r - ?c)\<rparr>" "st' = st2"
              by (auto simp: generate_keys_def split: option.splits)
            moreover have "st_keys st2 = st_keys st @ ks" "st_devices st2 = st_devices st"
              using st2(3,4) new(1,2) by simp_all
            moreover have "int (length ks) = max 0 ?c" using new(1,3) by simp
            ultimately show ?thesis
              using \<open>getReseller uid st = Some r\<close> st2(2) by simp
          qed
        qed
      qed
    qed
  qed
qed

subsection \<open>Credits\<close>

text \<open>
  The credits of a request whose \<^verbatim>\<open>count\<close> is absent or an integer. Whatever else the
  request holds and whatever storage call rejects, the issuance handler either answers
  201 or leaves every reseller's balance as it was. When it answers 201, with \<open>count\<close>
  the value of \<^verbatim>\<open>req.body.count || 1\<close>, the reseller's balance is the former balance
  minus \<open>count\<close>, the answer carries the created keys, these are the keys appended to
  the key table, and there are \<open>count\<close> of them (none when \<open>count\<close> is negative). On
  every other way out (validation error, unsupported game, custom key string already
  stored, reseller not found, insufficient credits, a storage call that rejects before,
  during or after the loop) the answer is a failure message and no balance changes,
  although the keys created before a rejected call stay in the table. In every case the
  amount taken from the requesting reseller is at most the number of keys the request
  added to the key table.

  The handler takes \<^verbatim>\<open>count\<close> from the request body as it arrives. For a count that is
  a fraction, a string or any other JSON value, the comparison with the balance, the
  number of turns of the loop and the amount handed to \<^verbatim>\<open>updateResellerCredits\<close>
  follow the number conversions of JavaScript, and what the store does with an amount
  that is not an integer is not part of the source; the lemma says nothing about such
  requests.
\<close>

lemma issuance_credits_integer_count:
  assumes "generate_keys flt rnd now uid parsed bodyCount st = (resp, st')"
  shows "(status resp = 201 \<longrightarrow>
            (\<exists>r ks. getReseller uid st = Some r
               \<and> body resp = Generated ks (r_credits r - count_or_one bodyCount)
               \<and> getReseller uid st' = Some (r\<lparr>r_credits := r_credits r - count_or_one bodyCount\<rparr>)
               \<and> st_keys st' = st_keys st @ ks
               \<and> int (length ks) = max 0 (count_or_one bodyCount)))
       \<and> (status resp \<noteq> 201 \<longrightarrow>
            (\<exists>msg. body resp = GenerateFailed msg) \<and> st_resellers st' = st_resellers st)
       \<and> (\<forall>r. getReseller uid st = Some r \<longrightarrow>
            (\<exists>r'. getReseller uid st' = Some r'
               \<and> r_credits r - r_credits r' \<le> int (length (st_keys st')) - int (length (st_keys st))))"
  using generate_keys_cases [OF assms]
proof (elim disjE exE conjE)
  fix msg new
  assume "resp = \<lparr>status = 400, body = GenerateFailed msg\<rparr>"
    and "st' = st\<lparr>st_keys := st_keys st @ new\<rparr>"
  then show ?thesis by (simp add: getReseller_def)
next
  assume "resp = \<lparr>status = 404, body = GenerateFailed ''Reseller not found''\<rparr>" and "st' = st"
  then show ?thesis by simp
next
  fix r ks
  assume "getReseller uid st = Some r"
    and "resp = \<lparr>status = 201, body = Generated ks (r_credits r - count_or_one bodyCount)\<rparr>"
    and "getReseller uid st' = Some (r\<lparr>r_credits := r_credits r - count_or_one bodyCount\<rparr>)"
    and "st_keys st' = st_keys st @ ks"
    and "st_devices st' = st_devices st"
    and "int (length ks) = max 0 (count_or_one bodyCount)"
  then show ?thesis by simp
qed

lemma example_reseller:
  "getReseller 7 example_store = Some \<lparr>r_id = 7, r_username = ''alice'', r_credits = 5, r_isActive = True\<rparr>"
  by (simp add: getReseller_def example_store_def)

lemma issuance_credits_integer_count_example:
  "status (fst (generate_keys no_faults example_rnd 2000 7 (Inr (example_key_data None)) (Some 3)
                  example_store)) = 201
   \<and> map_option r_credits (getReseller 7 (snd (generate_keys no_faults example_rnd 2000 7
         (Inr (example_key_data None)) (Some 3) example_store))) = Some 2
   \<and> length (st_keys (snd (generate_keys no_faults example_rnd 2000 7
         (Inr (example_key_data None)) (Some 3) example_store))) = 4
   \<and> status (fst (generate_keys example_faults example_rnd 2000 7 (Inr (example_key_data None))
                  (Some 3) example_store)) = 400
   \<and> st_resellers (snd (generate_keys example_faults example_rnd 2000 7
         (Inr (example_key_data None)) (Some 3) example_store)) = st_resellers example_store
   \<and> length (st_keys (snd (generate_keys example_faults example_rnd 2000 7
         (Inr (example_key_data None)) (Some 3) example_store))) = 2"
proof -
  let ?ok = "generate_keys no_faults example_rnd 2000 7 (Inr (example_key_data None)) (Some 3)
               example_store"
  let ?ko = "generate_keys example_faults example_rnd 2000 7 (Inr (example_key_data None)) (Some 3)
               example_store"
  have ok: "?ok = (fst ?ok, snd ?ok)" and ko: "?ko = (fst ?ko, snd ?ko)" by simp_all
  have s_ok: "status (fst ?ok) = 201" by code_simp
  have s_ko: "status (fst ?ko) = 400" by code_simp
  have k_ok: "length (st_keys (snd ?ok)) = 4" by code_simp
  have k_ko: "length (st_keys (snd ?ko)) = 2" by code_simp
  have r_ok: "map_option r_credits (getReseller 7 (snd ?ok)) = Some 2"
    using issuance_credits_integer_count [OF ok] s_ok example_reseller
    by (auto simp: count_or_one_def)
  have r_ko: "st_resellers (snd ?ko) = st_resellers example_store"
    using issuance_credits_integer_count [OF ko] s_ko by simp
  show ?thesis using s_ok s_ko k_ok k_ko r_ok r_ko by simp
qed

lemma no_faults_apply: "no_faults c = None"
  by (simp add: no_faults_def)

lemma generate_loop_single:
  "generate_loop no_faults rnd now uid kd 1 0 0 st [] =
     Inr ([fst (createKey now kd (stored_string rnd kd 0 0) uid st)],
          snd (createKey now kd (stored_string rnd kd 0 0) uid st))"
proof -
  have "generate_loop no_faults rnd now uid kd 1 0 0 st [] =
          generate_loop no_faults rnd now uid kd 1 (0 + 1) (0 + draws_used kd 0)
            (snd (createKey now kd (stored_string rnd kd 0 0) uid st))
            ([] @ [fst (createKey now kd (stored_string rnd kd 0 0) uid st)])"
    by (rule generate_loop_step) (simp_all add: no_faults_def)
  then show ?thesis by (simp add: generate_loop_done)
qed

subsection \<open>The default count\<close>

text \<open>
  C10. A request whose body has no \<^verbatim>\<open>count\<close>, or has \<^verbatim>\<open>count = 0\<close>, is treated in
  every respect as the same request with \<^verbatim>\<open>count = 1\<close>. For such a request that is
  otherwise valid (the schema passed, the game is supported, a custom key string is not
  yet stored, the reseller exists, the store answers) the handler requires a balance of
  at least 1: below that it answers "Insufficient credits" and changes nothing; from 1
  on it creates exactly one key (with the custom key string if one was given, otherwise
  a generated one), appends it to the key table, takes exactly one credit and reports
  \<^verbatim>\<open>remainingCredits\<close> as the former balance minus 1.
\<close>

theorem issuance_default_count:
  assumes "c = None \<or> c = Some 0"
    and "kd_game kd \<in> set gameEnum"
    and "case custom_key kd of None \<Rightarrow> True | Some s \<Rightarrow> getKey s st = None"
    and "getReseller uid st = Some r"
  shows "generate_keys flt rnd now uid parsed c st = generate_keys flt rnd now uid parsed (Some 1) st
       \<and> (r_credits r < 1 \<longrightarrow>
            generate_keys no_faults rnd now uid (Inr kd) c st =
              (\<lparr>status = 400, body = GenerateFailed ''Insufficient credits''\<rparr>, st))
       \<and> (1 \<le> r_credits r \<longrightarrow>
            (\<exists>k st'. generate_keys no_faults rnd now uid (Inr kd) c st =
                        (\<lparr>status = 201, body = Generated [k] (r_credits r - 1)\<rparr>, st')
                 \<and> k_keyString k = (case custom_key kd of
                                       Some s \<Rightarrow> s
                                     | None \<Rightarrow> draw rnd (kd_game kd) 0)
                 \<and> st_keys st' = st_keys st @ [k]
                 \<and> getReseller uid st' = Some (r\<lparr>r_credits := r_credits r - 1\<rparr>)))"
proof (intro conjI impI)
  have one: "count_or_one c = 1" using assms(1) by (auto simp: count_or_one_def)
  have same: "count_or_one c = count_or_one (Some 1)" using one by (simp add: count_or_one_def)
  show "generate_keys flt rnd now uid parsed c st = generate_keys flt rnd now uid parsed (Some 1) st"
    unfolding generate_keys_def same by (rule refl)
  have head: "generate_keys no_faults rnd now uid (Inr kd) c st =
      (if r_credits r < 1 then
         (\<lparr>status = 400, body = GenerateFailed ''Insufficient credits''\<rparr>, st)
       else
         (case generate_loop no_faults rnd now uid kd 1 0 0 st [] of
            Inl (err, st') \<Rightarrow> (\<lparr>status = 400, body = GenerateFailed err\<rparr>, st')
          | Inr (generatedKeys, st') \<Rightarrow>
              (case updateResellerCredits uid (- 1) st' of
                 Inl err \<Rightarrow> (\<lparr>status = 400, body = GenerateFailed err\<rparr>, st')
               | Inr (updated, st'') \<Rightarrow>
                   (\<lparr>status = 201, body = Generated generatedKeys (r_credits r - 1)\<rparr>, st''))))"
  proof (cases "custom_key kd")
    case None
    then show ?thesis
      using assms(2,4) one
      by (simp add: generate_keys_def no_faults_apply split: sum.split prod.split)
  next
    case (Some s)
    with assms(3) have "getKey s st = None" by simp
    with Some show ?thesis
      using assms(2,4) one
      by (simp add: generate_keys_def no_faults_apply split: sum.split prod.split)
  qed
  {
    assume "r_credits r < 1"
    then show "generate_keys no_faults rnd now uid (Inr kd) c st =
              (\<lparr>status = 400, body = GenerateFailed ''Insufficient credits''\<rparr>, st)"
      using head by simp
  }
  {
    assume enough: "1 \<le> r_credits r"
    let ?k = "fst (createKey now kd (stored_string rnd kd 0 0) uid st)"
    let ?st1 = "snd (createKey now kd (stored_string rnd kd 0 0) uid st)"
    have r1: "getReseller uid ?st1 = Some r"
      using assms(4) by (simp add: getReseller_def createKey_store)
    from updateResellerCredits_found [OF r1, of "- 1"] obtain st2 where
      st2: "updateResellerCredits uid (- 1) ?st1 = Inr (r\<lparr>r_credits := r_credits r + - 1\<rparr>, st2)"
           "getReseller uid st2 = Some (r\<lparr>r_credits := r_credits r + - 1\<rparr>)"
           "st_keys st2 = st_keys ?st1"
      by blast
    have "generate_keys no_faults rnd now uid (Inr kd) c st =
            (\<lparr>status = 201, body = Generated [?k] (r_credits r - 1)\<rparr>, st2)"
      using enough st2(1) by (simp add: head generate_loop_single)
    moreover have "k_keyString ?k = (case custom_key kd of Some s \<Rightarrow> s
                                     | None \<Rightarrow> draw rnd (kd_game kd) 0)"
      by (simp add: createKey_def Let_def stored_string_def split: option.split)
    moreover have "st_keys st2 = st_keys st @ [?k]"
      using st2(3) by (simp add: createKey_store)
    moreover have "getReseller uid st2 = Some (r\<lparr>r_credits := r_credits r - 1\<rparr>)"
      using st2(2) by simp
    ultimately show "\<exists>k st'. generate_keys no_faults rnd now uid (Inr kd) c st =
                        (\<lparr>status = 201, body = Generated [k] (r_credits r - 1)\<rparr>, st')
                 \<and> k_keyString k = (case custom_key kd of
                                       Some s \<Rightarrow> s
                                     | None \<Rightarrow> draw rnd (kd_game kd) 0)
                 \<and> st_keys st' = st_keys st @ [k]
                 \<and> getReseller uid st' = Some (r\<lparr>r_credits := r_credits r - 1\<rparr>)"
      by blast
  }
qed

theorem issuance_default_count_witness:
  "generate_keys no_faults example_rnd 2000 7 (Inr (example_key_data None)) None example_store
     = generate_keys no_faults example_rnd 2000 7 (Inr (example_key_data None)) (Some 1) example_store
   \<and> generate_keys no_faults example_rnd 2000 7 (Inr (example_key_data None)) (Some 0) example_store
     = generate_keys no_faults example_rnd 2000 7 (Inr (example_key_data None)) (Some 1) example_store
   \<and> status (fst (generate_keys no_faults example_rnd 2000 7 (Inr (example_key_data None)) (Some 0)
        example_store)) = 201
   \<and> map k_keyString (generated_keys (body (fst (generate_keys no_faults example_rnd 2000 7
        (Inr (example_key_data None)) (Some 0) example_store)))) = [''STDF-AB_CD-XY-12-Q9ZZK'']
   \<and> map_option r_credits (getReseller 7 (snd (generate_keys no_faults example_rnd 2000 7
        (Inr (example_key_data None)) (Some 0) example_store))) = Some 4"
proof -
  let ?run = "\<lambda>c. generate_keys no_faults example_rnd 2000 7 (Inr (example_key_data None)) c
                   example_store"
  have g: "kd_game (example_key_data None) \<in> set gameEnum"
    by (simp add: example_key_data_def gameEnum_def)
  have c: "case custom_key (example_key_data None) of None \<Rightarrow> True
           | Some s \<Rightarrow> getKey s example_store = None"
    by (simp add: custom_key_def example_key_data_def)
  have d: "draw example_rnd (kd_game (example_key_data None)) 0 = ''STDF-AB_CD-XY-12-Q9ZZK''"
    by code_simp
  have le: "1 \<le> r_credits \<lparr>r_id = 7, r_username = ''alice'', r_credits = 5, r_isActive = True\<rparr>"
    by simp
  note absent = issuance_default_count [OF disjI1 [OF refl] g c example_reseller,
      where flt = no_faults and rnd = example_rnd and now = 2000
        and parsed = "Inr (example_key_data None)"]
  note zero = issuance_default_count [OF disjI2 [OF refl] g c example_reseller,
      where flt = no_faults and rnd = example_rnd and now = 2000
        and parsed = "Inr (example_key_data None)"]
  have e1: "?run None = ?run (Some 1)" using absent by (rule conjunct1)
  have e2: "?run (Some 0) = ?run (Some 1)" using zero by (rule conjunct1)
  from zero [THEN conjunct2, THEN conjunct2, rule_format, OF le] obtain k st' where
    run: "?run (Some 0) = (\<lparr>status = 201, body = Generated [k]
              (r_credits \<lparr>r_id = 7, r_username = ''alice'', r_credits = 5, r_isActive = True\<rparr> - 1)\<rparr>,
            st')"
    and str: "k_keyString k = (case custom_key (example_key_data None) of Some s \<Rightarrow> s
                | None \<Rightarrow> draw example_rnd (kd_game (example_key_data None)) 0)"
    and cr: "getReseller 7 st' = Some (\<lparr>r_id = 7, r_username = ''alice'', r_credits = 5,
                r_isActive = True\<rparr>\<lparr>r_credits := r_credits \<lparr>r_id = 7, r_username = ''alice'',
                r_credits = 5, r_isActive = True\<rparr> - 1\<rparr>)"
    by blast
  have s: "k_keyString k = ''STDF-AB_CD-XY-12-Q9ZZK''"
    using str d by (simp add: custom_key_def example_key_data_def)
  have p3: "status (fst (?run (Some 0))) = 201" by (simp add: run)
  have p4: "map k_keyString (generated_keys (body (fst (?run (Some 0)))))
              = [''STDF-AB_CD-XY-12-Q9ZZK'']"
    by (simp add: run generated_keys_def s)
  have p5: "map_option r_credits (getReseller 7 (snd (?run (Some 0)))) = Some 4"
    by (simp add: run cr)
  show ?thesis by (intro conjI) (rule e1 e2 p3 p4 p5)+
qed

subsection \<open>Key strings\<close>

lemma upper_char_alphabet:
  "c \<in> set urlAlphabet \<Longrightarrow> upper_char c \<in> set segment_alphabet"
  unfolding urlAlphabet_def segment_alphabet_def
  by (auto simp: upper_char_def)

lemma map_of_zip_None:
  assumes "length xs = length ys" and "map_of (zip xs ys) c = None"
  shows "c \<notin> set xs"
proof -
  have "c \<notin> fst ` set (zip xs ys)" using assms(2) by (simp add: map_of_eq_None_iff)
  moreover have "fst ` set (zip xs ys) = set (map fst (zip xs ys))" by simp
  ultimately show ?thesis using assms(1) by simp
qed

lemma upper_char_not_lower:
  "upper_char c \<notin> set ''abcdefghijklmnopqrstuvwxyz''"
proof (cases "map_of (zip ''abcdefghijklmnopqrstuvwxyz'' ''ABCDEFGHIJKLMNOPQRSTUVWXYZ'') c")
  case None
  have "c \<notin> set ''abcdefghijklmnopqrstuvwxyz''"
    by (rule map_of_zip_None [OF _ None]) simp
  then show ?thesis unfolding upper_char_def None by simp
next
  case (Some u)
  then have "(c, u) \<in> set (zip ''abcdefghijklmnopqrstuvwxyz'' ''ABCDEFGHIJKLMNOPQRSTUVWXYZ'')"
    by (rule map_of_SomeD)
  then have "u \<in> set ''ABCDEFGHIJKLMNOPQRSTUVWXYZ''" by (rule set_zip_rightD)
  then have "u \<notin> set ''abcdefghijklmnopqrstuvwxyz''" by auto
  then show ?thesis unfolding upper_char_def Some by simp
qed

lemma segment_of_nanoid:
  assumes "is_nanoid5 n"
  shows "length (toUpperCase n) = 5 \<and> set (toUpperCase n) \<subseteq> set segment_alphabet"
  using assms by (auto simp: is_nanoid5_def toUpperCase_def list_all_iff upper_char_alphabet)

lemma segment_no_lower_case:
  "set (toUpperCase n) \<inter> set ''abcdefghijklmnopqrstuvwxyz'' = {}"
  using upper_char_not_lower by (auto simp: toUpperCase_def simp del: set_simps)

lemma generateKeyString_shape:
  "generateKeyString g n1 n2 n3 =
     (if g = ''PUBG MOBILE'' then ''PBGM''
      else if g = ''LAST ISLAND OF SURVIVAL'' then ''LIOS''
      else if g = ''STANDOFF2'' then ''STDF'' else [])
     @ ''-'' @ toUpperCase n1 @ ''-'' @ toUpperCase n2 @ ''-'' @ toUpperCase n3"
  by (simp add: generateKeyString_def)

lemma draw_standoff: "take 5 (draw rnd ''STANDOFF2'' n) = ''STDF-''"
  by (simp add: draw_def generateKeyString_shape)

lemma createKey_keyString: "k_keyString (fst (createKey now kd s uid st)) = s"
  by (simp add: createKey_def Let_def)

lemma stored_string_standoff:
  assumes "kd_game kd = ''STANDOFF2''" and "\<not> (i = 0 \<and> custom_key kd \<noteq> None)"
  shows "take 5 (stored_string rnd kd i n) = ''STDF-''"
  using assms by (auto simp: stored_string_def draw_standoff split: option.splits)

lemma generate_loop_prefix:
  assumes "generate_loop flt rnd now uid kd count i n st acc = Inr (acc', st')"
    and "kd_game kd = ''STANDOFF2''" and "0 \<le> i"
  shows "\<exists>new. acc' = acc @ new \<and>
           (\<forall>k \<in> set (if i = 0 \<and> custom_key kd \<noteq> None then tl new else new).
              take 5 (k_keyString k) = ''STDF-'')"
  using assms
proof (induction "nat (count - i)" arbitrary: i n st acc)
  case 0
  then have "\<not> i < count" by simp
  with "0.prems"(1) have "acc' = acc @ []" by (simp add: generate_loop_done)
  then show ?case by force
next
  case (Suc m)
  then have lt: "i < count" by simp
  show ?case
  proof (cases "flt (CreateKey i)")
    case (Some err)
    with lt Suc.prems(1) show ?thesis by (simp add: generate_loop_fault)
  next
    case None
    let ?k = "fst (createKey now kd (stored_string rnd kd i n) uid st)"
    let ?st = "snd (createKey now kd (stored_string rnd kd i n) uid st)"
    have m: "m = nat (count - (i + 1))" using Suc.hyps(2) by simp
    have rec: "generate_loop flt rnd now uid kd count (i + 1) (n + draws_used kd i) ?st (acc @ [?k])
                 = Inr (acc', st')"
      using Suc.prems(1) generate_loop_step [where flt = flt and i = i, OF lt None] by simp
    have pos: "0 \<le> i + 1" using Suc.prems(3) by simp
    from Suc.hyps(1) [OF m rec Suc.prems(2) pos] obtain new where
      new: "acc' = (acc @ [?k]) @ new"
           "\<forall>k \<in> set (if i + 1 = 0 \<and> custom_key kd \<noteq> None then tl new else new).
              take 5 (k_keyString k) = ''STDF-''"
      by blast
    have rest: "\<forall>k \<in> set new. take 5 (k_keyString k) = ''STDF-''"
      using new(2) Suc.prems(3) by simp
    have "acc' = acc @ (?k # new)" using new(1) by simp
    moreover have "\<forall>k \<in> set (if i = 0 \<and> custom_key kd \<noteq> None then tl (?k # new) else ?k # new).
              take 5 (k_keyString k) = ''STDF-''"
    proof (cases "i = 0 \<and> custom_key kd \<noteq> None")
      case True
      then show ?thesis using rest by simp
    next
      case False
      then have "take 5 (k_keyString ?k) = ''STDF-''"
        using stored_string_standoff [OF Suc.prems(2) False]
        by (simp only: createKey_keyString)
      with False rest show ?thesis by simp
    qed
    ultimately show ?thesis by blast
  qed
qed

lemma generate_keys_created:
  assumes "generate_keys flt rnd now uid (Inr kd) c st = (resp, st')" and "status resp = 201"
  shows "\<exists>st1. generate_loop flt rnd now uid kd (count_or_one c) 0 0 st []
                 = Inr (generated_keys (body resp), st1)"
  using assms
  by (auto simp: generate_keys_def generated_keys_def Let_def
        split: if_splits option.splits sum.splits bool.splits prod.splits)

lemma draws_before_step:
  "0 \<le> i \<Longrightarrow> draws_before kd (nat i) + draws_used kd i = draws_before kd (nat (i + 1))"
  by (cases "i = 0")
     (auto simp: draws_before_def draws_used_def nat_add_distrib split: option.splits)

lemma stored_string_batch:
  "0 \<le> i \<Longrightarrow> stored_string rnd kd i (draws_before kd (nat i)) = batch_key_string rnd kd (nat i)"
  by (cases "i = 0")
     (auto simp: draws_before_def stored_string_def batch_key_string_def split: option.splits)

lemma generate_loop_strings:
  assumes "generate_loop flt rnd now uid kd count i n st acc = Inr (acc', st')"
    and "0 \<le> i" and "n = draws_before kd (nat i)"
  shows "map k_keyString acc' =
           map k_keyString acc @ map (batch_key_string rnd kd) [nat i..<nat count]"
  using assms
proof (induction "nat (count - i)" arbitrary: i n st acc)
  case 0
  then have "\<not> i < count" by simp
  with "0.prems"(1) show ?case by (simp add: generate_loop_done)
next
  case (Suc m)
  then have lt: "i < count" by simp
  show ?case
  proof (cases "flt (CreateKey i)")
    case (Some err)
    with lt Suc.prems(1) show ?thesis by (simp add: generate_loop_fault)
  next
    case None
    let ?k = "fst (createKey now kd (stored_string rnd kd i n) uid st)"
    let ?st = "snd (createKey now kd (stored_string rnd kd i n) uid st)"
    have m: "m = nat (count - (i + 1))" using Suc.hyps(2) by simp
    have rec: "generate_loop flt rnd now uid kd count (i + 1) (n + draws_used kd i) ?st (acc @ [?k])
                 = Inr (acc', st')"
      using Suc.prems(1) generate_loop_step [where flt = flt and i = i, OF lt None] by simp
    have pos: "0 \<le> i + 1" using Suc.prems(2) by simp
    have n': "n + draws_used kd i = draws_before kd (nat (i + 1))"
      using draws_before_step [OF Suc.prems(2)] Suc.prems(3) by simp
    have k: "k_keyString ?k = batch_key_string rnd kd (nat i)"
      using stored_string_batch [OF Suc.prems(2)] Suc.prems(3)
      by (simp only: createKey_keyString)
    have upt: "[nat i..<nat count] = nat i # [nat (i + 1)..<nat count]"
      using lt Suc.prems(2) by (simp add: upt_conv_Cons nat_add_distrib)
    have "map k_keyString acc' =
            map k_keyString (acc @ [?k]) @ map (batch_key_string rnd kd) [nat (i + 1)..<nat count]"
      by (rule Suc.hyps(1) [OF m rec pos n'])
    then show ?thesis unfolding upt using k by simp
  qed
qed

text \<open>
  C8, as amended. For each of the three supported games \<^verbatim>\<open>generateKeyString\<close> returns
  the game's fixed four-character prefix (PBGM, LIOS, STDF), a hyphen, and three segments
  joined by hyphens. A segment is a result of \<^verbatim>\<open>nanoid(5)\<close> in upper case: it has no
  lowercase letter, and when the result is five characters of the package's alphabet the
  segment is five characters among the capital letters, the digits, the underscore and
  the hyphen. The key strings of a batch that was issued (status 201) are, in the order
  of the answer, the strings \<open>batch_key_string\<close> names: the custom key string, if the
  caller supplied one, as the first, and for every other key a string generated from
  three results of \<^verbatim>\<open>nanoid(5)\<close> that no other key of the batch uses. The handler does
  not compare them, so the key strings of a batch are pairwise distinct exactly when
  these strings are. In a batch issued for STANDOFF2 every key string starts with
  "STDF-", except that a custom key string supplied by the caller is stored as it is, as
  the first key of the batch.
\<close>

theorem key_string_format:
  "generateKeyString ''PUBG MOBILE'' n1 n2 n3 =
     ''PBGM-'' @ toUpperCase n1 @ ''-'' @ toUpperCase n2 @ ''-'' @ toUpperCase n3
   \<and> generateKeyString ''LAST ISLAND OF SURVIVAL'' n1 n2 n3 =
     ''LIOS-'' @ toUpperCase n1 @ ''-'' @ toUpperCase n2 @ ''-'' @ toUpperCase n3
   \<and> generateKeyString ''STANDOFF2'' n1 n2 n3 =
     ''STDF-'' @ toUpperCase n1 @ ''-'' @ toUpperCase n2 @ ''-'' @ toUpperCase n3
   \<and> set (toUpperCase n) \<inter> set ''abcdefghijklmnopqrstuvwxyz'' = {}
   \<and> (is_nanoid5 n \<longrightarrow>
        length (toUpperCase n) = 5 \<and> set (toUpperCase n) \<subseteq> set segment_alphabet)
   \<and> (generate_keys flt rnd now uid (Inr kd) c st = (resp, st') \<and> status resp = 201 \<longrightarrow>
        map k_keyString (generated_keys (body resp)) =
          map (batch_key_string rnd kd) [0..<nat (count_or_one c)]
        \<and> distinct (map k_keyString (generated_keys (body resp))) =
          inj_on (batch_key_string rnd kd) {0..<nat (count_or_one c)})
   \<and> (generate_keys flt rnd now uid (Inr kd) c st = (resp, st') \<and> status resp = 201
        \<and> kd_game kd = ''STANDOFF2'' \<longrightarrow>
        (\<forall>k \<in> set (case custom_key kd of
                      None \<Rightarrow> generated_keys (body resp)
                    | Some s \<Rightarrow> tl (generated_keys (body resp))).
           take 5 (k_keyString k) = ''STDF-''))"
proof (intro conjI impI)
  show "generateKeyString ''PUBG MOBILE'' n1 n2 n3 =
     ''PBGM-'' @ toUpperCase n1 @ ''-'' @ toUpperCase n2 @ ''-'' @ toUpperCase n3"
    by (simp add: generateKeyString_shape)
  show "generateKeyString ''LAST ISLAND OF SURVIVAL'' n1 n2 n3 =
     ''LIOS-'' @ toUpperCase n1 @ ''-'' @ toUpperCase n2 @ ''-'' @ toUpperCase n3"
    by (simp add: generateKeyString_shape)
  show "generateKeyString ''STANDOFF2'' n1 n2 n3 =
     ''STDF-'' @ toUpperCase n1 @ ''-'' @ toUpperCase n2 @ ''-'' @ toUpperCase n3"
    by (simp add: generateKeyString_shape)
  show "set (toUpperCase n) \<inter> set ''abcdefghijklmnopqrstuvwxyz'' = {}"
    by (rule segment_no_lower_case)
next
  assume "is_nanoid5 n"
  then show "length (toUpperCase n) = 5" and "set (toUpperCase n) \<subseteq> set segment_alphabet"
    using segment_of_nanoid by blast+
next
  assume a: "generate_keys flt rnd now uid (Inr kd) c st = (resp, st') \<and> status resp = 201"
  then obtain st1 where
    "generate_loop flt rnd now uid kd (count_or_one c) 0 0 st [] = Inr (generated_keys (body resp), st1)"
    using generate_keys_created by blast
  from generate_loop_strings [OF this]
  show strings: "map k_keyString (generated_keys (body resp)) =
      map (batch_key_string rnd kd) [0..<nat (count_or_one c)]"
    by (simp add: draws_before_def split: option.split)
  show "distinct (map k_keyString (generated_keys (body resp))) =
          inj_on (batch_key_string rnd kd) {0..<nat (count_or_one c)}"
    unfolding strings by (simp add: distinct_map)
next
  assume a: "generate_keys flt rnd now uid (Inr kd) c st = (resp, st') \<and> status resp = 201
        \<and> kd_game kd = ''STANDOFF2''"
  then obtain st1 where
    "generate_loop flt rnd now uid kd (count_or_one c) 0 0 st [] = Inr (generated_keys (body resp), st1)"
    using generate_keys_created by blast
  from generate_loop_prefix [OF this] a obtain new where
    "generated_keys (body resp) = [] @ new"
    "\<forall>k \<in> set (if (0::int) = 0 \<and> custom_key kd \<noteq> None then tl new else new).
        take 5 (k_keyString k) = ''STDF-''"
    by auto
  then show "\<forall>k \<in> set (case custom_key kd of
                      None \<Rightarrow> generated_keys (body resp)
                    | Some s \<Rightarrow> tl (generated_keys (body resp))).
           take 5 (k_keyString k) = ''STDF-''"
    by (auto split: option.splits)
qed

theorem key_string_format_witness:
  "is_nanoid5 ''ab_cd''
   \<and> length (toUpperCase ''ab_cd'') = 5
   \<and> set (toUpperCase ''ab_cd'') \<subseteq> set segment_alphabet
   \<and> status (fst (generate_keys no_faults example_rnd 2000 7
        (Inr (example_key_data (Some ''MYKEY''))) (Some 3) example_store)) = 201
   \<and> map k_keyString (generated_keys (body (fst (generate_keys no_faults example_rnd 2000 7
        (Inr (example_key_data (Some ''MYKEY''))) (Some 3) example_store))))
       = [''MYKEY'', ''STDF-AB_CD-XY-12-Q9ZZK'', ''STDF-M_T-4-HELLO-AB_CD'']
   \<and> distinct (map k_keyString (generated_keys (body (fst (generate_keys no_faults example_rnd
        2000 7 (Inr (example_key_data (Some ''MYKEY''))) (Some 3) example_store)))))
   \<and> list_all (\<lambda>k. take 5 (k_keyString k) = ''STDF-'')
        (tl (generated_keys (body (fst (generate_keys no_faults example_rnd 2000 7
           (Inr (example_key_data (Some ''MYKEY''))) (Some 3) example_store)))))"
proof -
  let ?run = "generate_keys no_faults example_rnd 2000 7
                (Inr (example_key_data (Some ''MYKEY''))) (Some 3) example_store"
  have n1: "is_nanoid5 ''ab_cd''" by code_simp
  have run: "?run = (fst ?run, snd ?run)" by simp
  have s: "status (fst ?run) = 201" by code_simp
  have g: "kd_game (example_key_data (Some ''MYKEY'')) = ''STANDOFF2''"
    by (simp add: example_key_data_def)
  have c: "custom_key (example_key_data (Some ''MYKEY'')) = Some ''MYKEY''"
    by (simp add: custom_key_def example_key_data_def)
  have b: "map (batch_key_string example_rnd (example_key_data (Some ''MYKEY'')))
             [0..<nat (count_or_one (Some 3))]
           = [''MYKEY'', ''STDF-AB_CD-XY-12-Q9ZZK'', ''STDF-M_T-4-HELLO-AB_CD'']"
    by code_simp
  note t = key_string_format [where n = "''ab_cd''" and flt = no_faults and rnd = example_rnd
      and now = 2000 and uid = 7 and kd = "example_key_data (Some ''MYKEY'')" and c = "Some 3"
      and st = example_store and resp = "fst ?run" and st' = "snd ?run"]
  have seg: "length (toUpperCase ''ab_cd'') = 5
      \<and> set (toUpperCase ''ab_cd'') \<subseteq> set segment_alphabet"
    using t n1 by blast
  have strings: "map k_keyString (generated_keys (body (fst ?run)))
      = [''MYKEY'', ''STDF-AB_CD-XY-12-Q9ZZK'', ''STDF-M_T-4-HELLO-AB_CD'']"
    using t run s b by simp
  have d: "distinct (map k_keyString (generated_keys (body (fst ?run))))"
    unfolding strings by simp
  have p: "\<forall>k \<in> set (tl (generated_keys (body (fst ?run)))). take 5 (k_keyString k) = ''STDF-''"
    using t run s g c by simp
  show ?thesis
    using n1 seg s strings d p by (simp add: list_all_iff)
qed

text \<open>
  The claim as first stated had every segment alphanumeric, and every key of a STANDOFF2
  batch distinct and prefixed "STDF-". The three strings below are possible results of
  \<^verbatim>\<open>nanoid(5)\<close>; the key string generated from them has the segments \<open>AB_CD\<close> and
  \<open>XY-12\<close>. A batch of two keys issued with the custom key string MYKEY has MYKEY as
  its first key. When every call of \<^verbatim>\<open>nanoid(5)\<close> returns the same five characters,
  a batch of two keys is issued with status 201 and holds the same key string twice.
\<close>

theorem key_string_format_counterexample:
  "is_nanoid5 ''ab_cd'' \<and> is_nanoid5 ''Xy-12'' \<and> is_nanoid5 ''q9ZZk''
   \<and> generateKeyString ''STANDOFF2'' ''ab_cd'' ''Xy-12'' ''q9ZZk'' = ''STDF-AB_CD-XY-12-Q9ZZK''
   \<and> \<not> set (toUpperCase ''ab_cd'') \<subseteq> set upper_alphanumeric
   \<and> status (fst (generate_keys no_faults example_rnd 2000 7
        (Inr (example_key_data (Some ''MYKEY''))) (Some 2) example_store)) = 201
   \<and> map k_keyString (generated_keys (body (fst (generate_keys no_faults example_rnd 2000 7
        (Inr (example_key_data (Some ''MYKEY''))) (Some 2) example_store))))
       = [''MYKEY'', ''STDF-AB_CD-XY-12-Q9ZZK'']
   \<and> take 5 ''MYKEY'' \<noteq> ''STDF-''
   \<and> is_nanoid5 ''aaaaa''
   \<and> status (fst (generate_keys no_faults constant_rnd 2000 7
        (Inr (example_key_data None)) (Some 2) example_store)) = 201
   \<and> map k_keyString (generated_keys (body (fst (generate_keys no_faults constant_rnd 2000 7
        (Inr (example_key_data None)) (Some 2) example_store))))
       = [''STDF-AAAAA-AAAAA-AAAAA'', ''STDF-AAAAA-AAAAA-AAAAA'']
   \<and> \<not> distinct (map k_keyString (generated_keys (body (fst (generate_keys no_faults
        constant_rnd 2000 7 (Inr (example_key_data None)) (Some 2) example_store)))))"
  by code_simp

end
